theory Spec2Isabelle
  imports Main
begin

section \<open>JavaScript objects used as string-keyed dictionaries\<close>

text \<open>
  The program keeps its derived data (\<open>headersObj\<close>, \<open>cookiesObj\<close>, \<open>queryObj\<close>,
  \<open>allHeaders\<close>, the target registry) in plain JavaScript objects. Such an object is
  modelled as an association list holding every own key once, in the order in which
  \<open>Object.keys\<close> enumerates the keys.

  \<open>obj_set\<close> is the assignment to a key that is an ordinary property and not an array
  index: a key that is already present keeps its position and takes the new value, a new
  key is appended. It is used for the query objects and for the registry, whose keys come
  out of modules that are not modelled here (\<open>querystring\<close>, \<open>./helpers/reducer\<close>,
  \<open>./targets\<close>).
\<close>

type_synonym 'v obj = "(string \<times> 'v) list"

fun obj_set :: "'v obj \<Rightarrow> string \<Rightarrow> 'v \<Rightarrow> 'v obj" where
  "obj_set [] k v = [(k, v)]"
| "obj_set ((k', v') # rest) k v =
     (if k' = k then (k, v) # rest else (k', v') # obj_set rest k v)"

definition obj_get :: "'v obj \<Rightarrow> string \<Rightarrow> 'v option" where
  "obj_get ob k = map_of ob k"

definition obj_keys :: "'v obj \<Rightarrow> string list" where
  "obj_keys ob = map fst ob"


text \<open>\<open>Object.assign(target, source)\<close>: for every own key of the source, in enumeration
  order, \<open>target[key] = source[key]\<close>.\<close>

definition obj_assign :: "'v obj \<Rightarrow> 'v obj \<Rightarrow> 'v obj" where
  "obj_assign target source =
     foldl (\<lambda>t k. case obj_get source k of None \<Rightarrow> t | Some v \<Rightarrow> obj_set t k v)
       target (obj_keys source)"

subsection \<open>Assignment of a string to a property of an object created by \<open>{}\<close>\<close>

text \<open>
  \<open>headersObj\<close>, \<open>cookiesObj\<close> and \<open>allHeaders\<close> start as \<open>{}\<close> and are filled by
  assignments \<open>ob[k] = v\<close> whose keys are header and cookie names, that is, arbitrary
  strings. Two keys are special.

  An array index is the decimal text, without sign or leading zero, of an integer from
  \<open>0\<close> to \<open>2\<^sup>3\<^sup>2 - 2\<close>. The array indices among the own keys of an object are enumerated
  first, in ascending numeric order; the other keys follow in the order of their creation.

  \<open>__proto__\<close> is an accessor that every object created by \<open>{}\<close> inherits from
  \<open>Object.prototype\<close>. Assigning a string to it calls the inherited setter, which ignores
  every value that is neither an object nor \<open>null\<close>: the object gets no own property.
\<close>

definition is_digit :: "char \<Rightarrow> bool" where
  "is_digit c \<longleftrightarrow> c \<in> set ''0123456789''"

definition digit_value :: "char \<Rightarrow> nat" where
  "digit_value c = length (takeWhile (\<lambda>d. d \<noteq> c) ''0123456789'')"

definition index_value :: "string \<Rightarrow> nat" where
  "index_value k = foldl (\<lambda>n c. 10 * n + digit_value c) 0 k"

definition is_array_index :: "string \<Rightarrow> bool" where
  "is_array_index k \<longleftrightarrow>
     k \<noteq> [] \<and> list_all is_digit k \<and> (k = ''0'' \<or> hd k \<noteq> CHR ''0'')
     \<and> index_value k < 4294967295"

text \<open>A new array index goes before the first key that is not a smaller array index.\<close>

fun insert_index :: "'v obj \<Rightarrow> string \<Rightarrow> 'v \<Rightarrow> 'v obj" where
  "insert_index [] k v = [(k, v)]"
| "insert_index ((k', v') # rest) k v =
     (if is_array_index k' \<and> index_value k' < index_value k
      then (k', v') # insert_index rest k v
      else (k, v) # (k', v') # rest)"

definition js_assign :: "string obj \<Rightarrow> string \<Rightarrow> string \<Rightarrow> string obj" where
  "js_assign ob k v =
     (if k = ''__proto__'' then ob
      else if k \<in> set (obj_keys ob) \<or> \<not> is_array_index k then obj_set ob k v
      else insert_index ob k v)"

text \<open>\<open>Object.assign(target, source)\<close> where both were built by such assignments.\<close>

definition js_assign_all :: "string obj \<Rightarrow> string obj \<Rightarrow> string obj" where
  "js_assign_all target source =
     foldl (\<lambda>t k. case obj_get source k of None \<Rightarrow> t | Some v \<Rightarrow> js_assign t k v)
       target (obj_keys source)"

section \<open>Data model (types/Request)\<close>

text \<open>A header, a cookie or a query-string pair: \<open>{name, value}\<close>. A body parameter
  has the two further fields of \<open>Param\<close>.\<close>

record nv =
  name :: string
  val :: string

record param = nv +
  fileName :: "string option"
  contentType :: "string option"

text \<open>A value of a query object (\<open>ParsedUrlQuery\<close>): a string, or an array of strings
  where the query string repeats a key.\<close>

datatype qval = QStr string | QArr "string list"

text \<open>The values \<open>JSON.parse\<close> returns. A number is an IEEE double; it is given by
  its canonical decimal text (\<open>Number.prototype.toString\<close>).\<close>

datatype json =
    JNull
  | JBool bool
  | JNum string
  | JStr string
  | JArr "json list"
  | JObj "(string \<times> json) list"

text \<open>The legacy \<open>Url\<close> object of Node's \<open>url\<close> module; \<open>None\<close> is \<open>null\<close>.\<close>

record uriObj =
  protocol :: "string option"
  slashes :: "bool option"
  auth :: "string option"
  host :: "string option"
  port :: "string option"
  hostname :: "string option"
  hash :: "string option"
  search :: "string option"
  query :: "qval obj option"
  pathname :: "string option"
  path :: "string option"
  href :: "string option"

text \<open>\<open>postData\<close>: \<open>None\<close> in \<open>text\<close>, \<open>params\<close>, \<open>paramsObj\<close> and \<open>boundary\<close> is
  \<open>undefined\<close>. \<open>jsonObj\<close> is \<open>false\<close> (\<open>JBool False\<close>) or the parsed body.\<close>

record postData =
  mimeType :: string
  "text" :: "string option"
  params :: "param list option"
  jsonObj :: json
  paramsObj :: "qval obj option"
  boundary :: "string option"

record request =
  url :: string
  fullUrl :: string
  queryString :: "nv list"
  headers :: "nv list"
  cookies :: "nv list"
  httpVersion :: string
  uriObj :: "uriObj option"
  queryObj :: "qval obj"
  headersObj :: "string obj"
  cookiesObj :: "string obj"
  allHeaders :: "string obj"
  postData :: postData

text \<open>JavaScript errors that the modelled code can raise: \<open>new Error(message)\<close>, and the
  \<open>TypeError\<close> of reading a property of \<open>undefined\<close> or calling a non-function.\<close>

datatype error = Error string | TypeError

section \<open>Collaborators outside the repository\<close>

text \<open>
  \<open>prepare\<close> calls into the JavaScript built-ins, into Node's modules, into the
  \<open>form-data\<close> package and into the helper module \<open>./helpers/reducer\<close>. What has a long or
  opaque algorithm is a parameter of the model, collected in the record \<open>lib\<close>:
  \<^item> \<open>reducer\<close>: the callback \<open>./helpers/reducer\<close> given to \<open>Array.prototype.reduce\<close>
    (accumulator and pair);
  \<^item> \<open>url_parse\<close>: \<open>url.parse(s, true, true)\<close> of Node;
  \<^item> \<open>JSON_parse\<close>: \<open>JSON.parse\<close>, \<open>None\<close> when it throws a \<open>SyntaxError\<close>;
  \<^item> \<open>multipart_body\<close>: the text that the \<open>form-data\<close> module has delivered for the
    given parameters and boundary when \<open>prepare\<close> returns;
  \<^item> \<open>encode_auth\<close>: the escaping \<open>url.format\<close> applies to the \<open>auth\<close> component;
  \<^item> \<open>lower_case\<close>: the case mapping of \<open>String.prototype.toLowerCase\<close>, which follows the
    Unicode character database.
\<close>

record lib =
  reducer :: "qval obj \<Rightarrow> string \<times> string \<Rightarrow> qval obj"
  url_parse :: "string \<Rightarrow> uriObj"
  JSON_parse :: "string \<Rightarrow> json option"
  multipart_body :: "param list \<Rightarrow> string \<Rightarrow> string"
  encode_auth :: "string \<Rightarrow> string"
  lower_case :: "string \<Rightarrow> string"

text \<open>Modelled from the spec: the source of \<open>./helpers/reducer\<close>, which \<open>prepare\<close> imports,
  is missing. Section 4.2 of the specification: given an ordered sequence of
  \<open>{name, value}\<close> pairs, produce a mapping where, for duplicate names, the entry later
  in the sequence overwrites the earlier one. As a callback of \<open>reduce\<close> this is one
  assignment per pair.\<close>

definition reducer_spec :: "qval obj \<Rightarrow> string \<times> string \<Rightarrow> qval obj" where
  "reducer_spec ob pair = obj_set ob (fst pair) (QStr (snd pair))"

subsection \<open>Strings\<close>

text \<open>
  \<open>s.toLowerCase()\<close>. Whatever the Unicode case mapping does to the letters of a string,
  it maps the empty string to the empty string and no other string to it. The definition
  says so for every instance of the parameter \<open>lower_case\<close>; for the mapping of JavaScript
  it is that mapping.
\<close>

definition toLowerCase :: "lib \<Rightarrow> string \<Rightarrow> string" where
  "toLowerCase l s =
     (if s = [] then [] else if lower_case l s = [] then s else lower_case l s)"

text \<open>The case mapping on ASCII strings: \<open>A\<close> to \<open>Z\<close> become \<open>a\<close> to \<open>z\<close>.\<close>

definition lower_char :: "char \<Rightarrow> char" where
  "lower_char c =
     (case map_of (zip ''ABCDEFGHIJKLMNOPQRSTUVWXYZ'' ''abcdefghijklmnopqrstuvwxyz'') c of
        None \<Rightarrow> c
      | Some l \<Rightarrow> l)"

definition ascii_lower :: "string \<Rightarrow> string" where
  "ascii_lower s = map lower_char s"

section \<open>Header utilities (helpers/headers)\<close>

text \<open>
  \<^verbatim>\<open>Object.keys(headers).find(k => k.toLowerCase() === name.toLowerCase())\<close>, then
  \<^verbatim>\<open>headers[key]\<close>; \<open>None\<close> is JavaScript's \<open>undefined\<close>.
\<close>

definition getHeader :: "lib \<Rightarrow> string obj \<Rightarrow> string \<Rightarrow> string option" where
  "getHeader l hdrs nm =
     (case find (\<lambda>k. toLowerCase l k = toLowerCase l nm) (obj_keys hdrs) of
        None \<Rightarrow> None
      | Some k \<Rightarrow> obj_get hdrs k)"

text \<open>
  The callback of \<open>getHeaderName\<close> returns the key itself on a match and \<open>undefined\<close>
  otherwise; \<open>find\<close> takes the result as a truth value, and the empty string is falsy.
\<close>

definition getHeaderName :: "lib \<Rightarrow> string obj \<Rightarrow> string \<Rightarrow> string option" where
  "getHeaderName l hdrs nm =
     find (\<lambda>k. toLowerCase l k = toLowerCase l nm \<and> k \<noteq> []) (obj_keys hdrs)"

text \<open>\<open>Boolean(...)\<close> of the key found: a key that is the empty string counts as absent.\<close>

definition hasHeader :: "lib \<Rightarrow> string obj \<Rightarrow> string \<Rightarrow> bool" where
  "hasHeader l hdrs nm =
     (case find (\<lambda>k. toLowerCase l k = toLowerCase l nm) (obj_keys hdrs) of
        None \<Rightarrow> False
      | Some k \<Rightarrow> k \<noteq> [])"

section \<open>Node's modules \<open>querystring\<close> and \<open>url\<close>\<close>

subsection \<open>Percent-encoding and query strings (Node's \<open>querystring\<close>)\<close>

text \<open>\<open>Array.prototype.join\<close> on strings.\<close>

fun join :: "string \<Rightarrow> string list \<Rightarrow> string" where
  "join sep [] = []"
| "join sep [x] = x"
| "join sep (x # y # ys) = x @ sep @ join sep (y # ys)"

text \<open>
  \<open>encodeURIComponent\<close> and \<open>querystring.escape\<close> on a string given by its UTF-8 bytes:
  letters, digits and \<open>- _ . ! ~ * ' ( )\<close> are kept, every other byte becomes \<open>%XX\<close> in
  upper-case hexadecimal. (The two functions differ on ill-formed UTF-16 only.)
\<close>

definition unreserved :: "char \<Rightarrow> bool" where
  "unreserved c \<longleftrightarrow>
     c \<in> set (''ABCDEFGHIJKLMNOPQRSTUVWXYZabcdefghijklmnopqrstuvwxyz0123456789-_.!~*()''
              @ [CHR 0x27])"

definition hex_digit :: "nat \<Rightarrow> char" where
  "hex_digit n = ''0123456789ABCDEF'' ! (n mod 16)"

definition percent_encode_char :: "char \<Rightarrow> string" where
  "percent_encode_char c =
     (if unreserved c then [c]
      else [CHR ''%'', hex_digit (of_char c div 16), hex_digit (of_char c mod 16)])"

definition encodeURIComponent :: "string \<Rightarrow> string" where
  "encodeURIComponent s = concat (map percent_encode_char s)"

text \<open>
  \<open>querystring.stringify(obj)\<close>: the keys in enumeration order; a string value gives one
  field \<open>key=value\<close>, an array one field per element; the fields are joined by \<open>&\<close>.
\<close>

definition qs_fields :: "string \<times> qval \<Rightarrow> string list" where
  "qs_fields kv =
     (case snd kv of
        QStr s \<Rightarrow> [encodeURIComponent (fst kv) @ ''='' @ encodeURIComponent s]
      | QArr vs \<Rightarrow> map (\<lambda>s. encodeURIComponent (fst kv) @ ''='' @ encodeURIComponent s) vs)"

definition qs_stringify :: "qval obj \<Rightarrow> string" where
  "qs_stringify ob = join ''&'' (concat (map qs_fields ob))"

subsection \<open>\<open>url.format\<close> of a \<open>Url\<close> object\<close>

text \<open>\<open>x || ''\<close> on a string or \<open>null\<close>, and string concatenation with \<open>null\<close>.\<close>

definition or_empty :: "string option \<Rightarrow> string" where
  "or_empty x = (case x of None \<Rightarrow> [] | Some s \<Rightarrow> s)"

definition js_string :: "string option \<Rightarrow> string" where
  "js_string x = (case x of None \<Rightarrow> ''null'' | Some s \<Rightarrow> s)"

definition slashedProtocol :: "string \<Rightarrow> bool" where
  "slashedProtocol p \<longleftrightarrow>
     p \<in> set [''http'', ''http:'', ''https'', ''https:'', ''ftp'', ''ftp:'', ''gopher'',
               ''gopher:'', ''file'', ''file:'', ''ws'', ''ws:'', ''wss'', ''wss:'']"

definition escape_hash :: "string \<Rightarrow> string" where
  "escape_hash s = concat (map (\<lambda>c. if c = CHR ''#'' then ''%23'' else [c]) s)"

definition escape_pathname :: "string \<Rightarrow> string" where
  "escape_pathname s =
     concat (map (\<lambda>c. if c = CHR ''#'' then ''%23'' else if c = CHR ''?'' then ''%3F'' else [c]) s)"

text \<open>
  \<open>Url.prototype.format\<close> of Node's \<open>lib/url.js\<close> returns
  \<open>protocol + host + pathname + search + hash\<close>, each part adjusted first. The three
  groups of adjustments do not depend on each other and are three functions here.
  The fields \<open>path\<close> and \<open>href\<close> are not read. (Releases of Node differ in details of the
  authority part, such as the bracketing of IPv6 host names; none of them touches the
  search string or the fragment.)

  Protocol, authority and path: the authority from \<open>auth\<close> and \<open>host\<close> (or \<open>hostname\<close> and
  \<open>port\<close>); a colon after the protocol; \<open>#\<close> and \<open>?\<close> escaped in the path; \<open>//\<close> before the
  authority, and \<open>/\<close> before a path that lacks it, for \<open>slashes\<close> or a slashed protocol.
\<close>

definition format_origin :: "lib \<Rightarrow> uriObj \<Rightarrow> string" where
  "format_origin l u =
     (let auth0 = or_empty (auth u);
          auth1 = (if auth0 \<noteq> [] then encode_auth l auth0 @ ''@'' else []);
          protocol0 = or_empty (protocol u);
          host0 =
            (if or_empty (host u) \<noteq> [] then auth1 @ or_empty (host u)
             else if or_empty (hostname u) \<noteq> [] then
               auth1
               @ (if CHR '':'' \<in> set (or_empty (hostname u))
                  then ''['' @ or_empty (hostname u) @ '']'' else or_empty (hostname u))
               @ (if or_empty (port u) \<noteq> [] then '':'' @ or_empty (port u) else [])
             else []);
          protocol1 =
            (if protocol0 \<noteq> [] \<and> last protocol0 \<noteq> CHR '':'' then protocol0 @ '':''
             else protocol0);
          pathname1 = escape_pathname (or_empty (pathname u));
          sl = (slashes u = Some True);
          (host1, pathname2) =
            (if sl \<or> slashedProtocol protocol1 then
               (if sl \<or> host0 \<noteq> [] then
                  (''//'' @ host0,
                   if pathname1 \<noteq> [] \<and> hd pathname1 \<noteq> CHR ''/'' then ''/'' @ pathname1
                   else pathname1)
                else if take 4 protocol1 = ''file'' then (''//'', pathname1)
                else (host0, pathname1))
             else (host0, pathname1))
      in protocol1 @ host1 @ pathname2)"

text \<open>The search string: \<open>search\<close> or, when that is empty or \<open>null\<close>, \<open>?\<close> and the
  serialised \<open>query\<close>; then \<open>#\<close> is escaped and a missing leading \<open>?\<close> is supplied.\<close>

definition format_search :: "uriObj \<Rightarrow> string" where
  "format_search u =
     (let query0 = (case query u of None \<Rightarrow> [] | Some q \<Rightarrow> qs_stringify q);
          search0 =
            (if or_empty (search u) \<noteq> [] then or_empty (search u)
             else if query0 \<noteq> [] then ''?'' @ query0 else []);
          search1 = escape_hash search0
      in if search1 \<noteq> [] \<and> hd search1 \<noteq> CHR ''?'' then ''?'' @ search1 else search1)"

text \<open>The fragment: \<open>hash\<close>, with a leading \<open>#\<close> supplied when it is missing.\<close>

definition format_fragment :: "uriObj \<Rightarrow> string" where
  "format_fragment u =
     (let hash0 = or_empty (hash u)
      in if hash0 \<noteq> [] \<and> hd hash0 \<noteq> CHR ''#'' then ''#'' @ hash0 else hash0)"

definition url_format :: "lib \<Rightarrow> uriObj \<Rightarrow> string" where
  "url_format l u = format_origin l u @ format_search u @ format_fragment u"

subsection \<open>\<open>url.parse\<close> on plain URLs\<close>

text \<open>
  \<open>url.parse(s, true, true)\<close> is modelled on plain absolute URLs only, that is on
  \<open>scheme://host/path?query#fragment\<close> where path, query and fragment may be missing and
  \<^item> the scheme is \<open>http\<close> or \<open>https\<close>;
  \<^item> the host consists of labels of letters and digits, separated by dots (no user
    information, no port), within the length limits of host names;
  \<^item> path, query and fragment consist of letters, digits and \<open>- . _ ~\<close>, the path also of
    \<open>/\<close>, the query also of \<open>=\<close> and \<open>&\<close>;
  \<^item> the query has at most 1000 fields, the limit of \<open>querystring.parse\<close>, and every field
    that is not empty starts with a letter, so that no key is empty, an array index or
    \<open>__proto__\<close>.
  On such a URL Node's parser escapes and decodes nothing: it cuts the string at the
  first \<open>#\<close>, the first \<open>?\<close>, after \<open>://\<close> and at the first \<open>/\<close> behind the host, lower-cases
  the host, and supplies \<open>/\<close> for a missing path. \<open>querystring.parse\<close> cuts the query at every \<open>&\<close> and
  each field at its first \<open>=\<close>, skips empty fields and collects the values of a repeated
  key in an array. On other strings \<open>plain_url_parse\<close> cuts in the same way, but Node's
  parser does more; nothing is stated about them.
\<close>

definition letters :: string where
  "letters = ''ABCDEFGHIJKLMNOPQRSTUVWXYZabcdefghijklmnopqrstuvwxyz''"

definition plain_chars :: string where
  "plain_chars = letters @ ''0123456789-._~''"

definition split_on :: "char \<Rightarrow> string \<Rightarrow> string list" where
  "split_on c s = foldr (\<lambda>x acc. if x = c then [] # acc else (x # hd acc) # tl acc) s [[]]"

definition plain_host :: "string \<Rightarrow> bool" where
  "plain_host h \<longleftrightarrow>
     h \<noteq> [] \<and> length h \<le> 253 \<and> set h \<subseteq> set (''.'' @ letters @ ''0123456789'')
     \<and> list_all (\<lambda>label. label \<noteq> [] \<and> length label \<le> 63) (split_on CHR ''.'' h)"

definition plain_path :: "string \<Rightarrow> bool" where
  "plain_path p \<longleftrightarrow> p = [] \<or> (hd p = CHR ''/'' \<and> set p \<subseteq> set (''/'' @ plain_chars))"

definition plain_search :: "string \<Rightarrow> bool" where
  "plain_search q \<longleftrightarrow>
     q = [] \<or>
     (hd q = CHR ''?'' \<and> set (tl q) \<subseteq> set (''&='' @ plain_chars)
      \<and> length (split_on CHR ''&'' (tl q)) \<le> 1000
      \<and> list_all (\<lambda>f. f = [] \<or> hd f \<in> set letters) (split_on CHR ''&'' (tl q)))"

definition plain_fragment :: "string \<Rightarrow> bool" where
  "plain_fragment f \<longleftrightarrow> f = [] \<or> (hd f = CHR ''#'' \<and> set (tl f) \<subseteq> set plain_chars)"

definition plain_qs_parse :: "string \<Rightarrow> qval obj" where
  "plain_qs_parse s =
     foldl (\<lambda>ob f.
              if f = [] then ob
              else (let k = takeWhile (\<lambda>c. c \<noteq> CHR ''='') f;
                        v = drop 1 (dropWhile (\<lambda>c. c \<noteq> CHR ''='') f)
                    in obj_set ob k
                         (case obj_get ob k of
                            None \<Rightarrow> QStr v
                          | Some (QStr v0) \<Rightarrow> QArr [v0, v]
                          | Some (QArr vs) \<Rightarrow> QArr (vs @ [v]))))
       [] (split_on CHR ''&'' s)"

definition plain_url_parse :: "string \<Rightarrow> uriObj" where
  "plain_url_parse s =
     (let hash0 = dropWhile (\<lambda>c. c \<noteq> CHR ''#'') s;
          rest = takeWhile (\<lambda>c. c \<noteq> CHR ''#'') s;
          search0 = dropWhile (\<lambda>c. c \<noteq> CHR ''?'') rest;
          rest' = takeWhile (\<lambda>c. c \<noteq> CHR ''?'') rest;
          scheme = takeWhile (\<lambda>c. c \<noteq> CHR '':'') rest';
          hostpath = drop (length scheme + 3) rest';
          h = ascii_lower (takeWhile (\<lambda>c. c \<noteq> CHR ''/'') hostpath);
          p = (if take 3 (drop (length scheme) rest') = ''://''
               then (if dropWhile (\<lambda>c. c \<noteq> CHR ''/'') hostpath = [] then ''/''
                     else dropWhile (\<lambda>c. c \<noteq> CHR ''/'') hostpath)
               else rest');
          absolute = (take 3 (drop (length scheme) rest') = ''://'')
      in \<lparr>protocol = (if absolute then Some (ascii_lower scheme @ '':'') else None),
          slashes = (if absolute then Some True else None),
          auth = None,
          host = (if absolute then Some h else None),
          port = None,
          hostname = (if absolute then Some h else None),
          hash = (if hash0 = [] then None else Some hash0),
          search = (if search0 = [] then None else Some search0),
          query = Some (plain_qs_parse (drop 1 search0)),
          pathname = Some p,
          path = Some (p @ search0),
          href = Some ((if absolute then ascii_lower scheme @ ''://'' @ h else []) @ p @ search0 @ hash0)\<rparr>)"

section \<open>Request canonicalisation (\<open>HTTPSnippet.prepare\<close>)\<close>

text \<open>\<open>prepare\<close> updates the request in place, block by block; each block of the source
  is one function here, named after the comment that opens it, and \<open>prepare\<close> runs them
  in the order of the source.\<close>

text \<open>"construct utility properties"\<close>

definition reset_utility :: "request \<Rightarrow> request" where
  "reset_utility r =
     r\<lparr>queryObj := [], headersObj := [], cookiesObj := [], allHeaders := [],
       postData := (postData r)\<lparr>jsonObj := JBool False, paramsObj := None\<rparr>\<rparr>"

text \<open>"construct query objects": \<open>request.queryString.reduce(reducer, {})\<close>\<close>

definition build_queryObj :: "lib \<Rightarrow> request \<Rightarrow> request" where
  "build_queryObj l r =
     (if length (queryString r) > 0
      then r\<lparr>queryObj := foldl (reducer l) [] (map (\<lambda>p. (name p, val p)) (queryString r))\<rparr>
      else r)"

text \<open>\<open>request.httpVersion.match(/^HTTP\/2/)\<close>\<close>

definition http2 :: "string \<Rightarrow> bool" where
  "http2 v \<longleftrightarrow> take 6 v = ''HTTP/2''"

text \<open>"construct headers objects": the callback of \<open>request.headers.reduce\<close>, and the block.\<close>

definition header_step :: "lib \<Rightarrow> string \<Rightarrow> string obj \<Rightarrow> nv \<Rightarrow> string obj" where
  "header_step l v hdrs h =
     (let headerName = (if http2 v then toLowerCase l (name h) else name h)
      in js_assign hdrs headerName (val h))"

definition build_headersObj :: "lib \<Rightarrow> request \<Rightarrow> request" where
  "build_headersObj l r =
     (if length (headers r) > 0
      then r\<lparr>headersObj := foldl (header_step l (httpVersion r)) [] (headers r)\<rparr>
      else r)"

text \<open>The cookies block: \<open>request.cookies.reduceRight\<close>, which visits the last cookie first.\<close>

definition cookie_step :: "nv \<Rightarrow> string obj \<Rightarrow> string obj" where
  "cookie_step c cks = js_assign cks (name c) (val c)"

definition build_cookiesObj :: "request \<Rightarrow> request" where
  "build_cookiesObj r =
     (if length (cookies r) > 0
      then r\<lparr>cookiesObj := foldr cookie_step (cookies r) []\<rparr>
      else r)"

text \<open>"construct Cookie header"\<close>

definition build_cookie_header :: "request \<Rightarrow> request" where
  "build_cookie_header r =
     (let cks = map (\<lambda>c. encodeURIComponent (name c) @ ''='' @ encodeURIComponent (val c))
                  (cookies r)
      in if length cks > 0
         then r\<lparr>allHeaders := js_assign (allHeaders r) ''cookie'' (join ''; '' cks)\<rparr>
         else r)"

text \<open>The \<open>switch\<close> on \<open>request.postData.mimeType\<close>. An array of parameters is truthy also
  when it is empty, so the tests on \<open>params\<close> ask whether the field is there.\<close>

definition multipart_boundary :: string where
  "multipart_boundary = ''---011000010111000001101001''"

definition multipart_types :: "string list" where
  "multipart_types =
     [''multipart/mixed'', ''multipart/related'', ''multipart/form-data'',
      ''multipart/alternative'']"

definition json_types :: "string list" where
  "json_types = [''text/json'', ''text/x-json'', ''application/json'', ''application/x-json'']"

definition body_multipart :: "lib \<Rightarrow> request \<Rightarrow> error + request" where
  "body_multipart l r =
     (let pd = (postData r)\<lparr>text := Some [], mimeType := ''multipart/form-data''\<rparr>
      in case params pd of
           None \<Rightarrow> Inr (r\<lparr>postData := pd\<rparr>)
         | Some ps \<Rightarrow>
             (let pd' = pd\<lparr>text := Some ([] @ multipart_body l ps multipart_boundary),
                           boundary := Some multipart_boundary\<rparr>;
                  contentTypeHeader =
                    (if hasHeader l (headersObj r) ''content-type''
                     then getHeaderName l (headersObj r) ''content-type''
                     else Some ''content-type'')
              in case contentTypeHeader of
                   None \<Rightarrow> Inl (Error ''How did you get here?'')
                 | Some h \<Rightarrow>
                     Inr (r\<lparr>postData := pd',
                            headersObj :=
                              js_assign (headersObj r) h
                                (''multipart/form-data; boundary='' @ multipart_boundary)\<rparr>)))"

definition body_urlencoded :: "lib \<Rightarrow> request \<Rightarrow> request" where
  "body_urlencoded l r =
     (case params (postData r) of
        None \<Rightarrow> r\<lparr>postData := (postData r)\<lparr>text := Some []\<rparr>\<rparr>
      | Some ps \<Rightarrow>
          (let po = foldl (reducer l) [] (map (\<lambda>p. (name p, val p)) ps)
           in r\<lparr>postData := (postData r)\<lparr>paramsObj := Some po, text := Some (qs_stringify po)\<rparr>\<rparr>))"

definition body_json :: "lib \<Rightarrow> request \<Rightarrow> request" where
  "body_json l r =
     (let pd = (postData r)\<lparr>mimeType := ''application/json''\<rparr>
      in case text pd of
           None \<Rightarrow> r\<lparr>postData := pd\<rparr>
         | Some t \<Rightarrow>
             (if t = [] then r\<lparr>postData := pd\<rparr>
              else case JSON_parse l t of
                     Some j \<Rightarrow> r\<lparr>postData := pd\<lparr>jsonObj := j\<rparr>\<rparr>
                   | None \<Rightarrow> r\<lparr>postData := pd\<lparr>mimeType := ''text/plain''\<rparr>\<rparr>))"

definition normalize_body :: "lib \<Rightarrow> request \<Rightarrow> error + request" where
  "normalize_body l r =
     (if mimeType (postData r) \<in> set multipart_types then body_multipart l r
      else if mimeType (postData r) = ''application/x-www-form-urlencoded''
      then Inr (body_urlencoded l r)
      else if mimeType (postData r) \<in> set json_types then Inr (body_json l r)
      else Inr r)"

text \<open>"create allHeaders object"\<close>

definition merge_allHeaders :: "request \<Rightarrow> request" where
  "merge_allHeaders r = r\<lparr>allHeaders := js_assign_all (allHeaders r) (headersObj r)\<rparr>"

text \<open>"deconstruct the uri" up to "construct a full url". \<open>Object.assign\<close> ignores a
  \<open>null\<close> source.\<close>

definition reconcile_url :: "lib \<Rightarrow> request \<Rightarrow> request" where
  "reconcile_url l r =
     (let u = url_parse l (url r);
          q = (case query u of None \<Rightarrow> queryObj r | Some uq \<Rightarrow> obj_assign (queryObj r) uq);
          clean = u\<lparr>query := None, search := None, path := pathname u\<rparr>;
          s = qs_stringify q;
          u' = clean\<lparr>query := Some q, search := Some s\<rparr>;
          u'' = (if s \<noteq> [] then u'\<lparr>path := Some (js_string (pathname u') @ ''?'' @ s)\<rparr> else u')
      in r\<lparr>uriObj := Some u'', queryObj := q, url := url_format l clean,
           fullUrl := url_format l u''\<rparr>)"

definition prepare :: "lib \<Rightarrow> request \<Rightarrow> error + request" where
  "prepare l request0 =
     (case normalize_body l
             (build_cookie_header
               (build_cookiesObj (build_headersObj l (build_queryObj l (reset_utility request0)))))
      of Inl e \<Rightarrow> Inl e
       | Inr r \<Rightarrow> Inr (reconcile_url l (merge_allHeaders r)))"

section \<open>Target registry and dispatch\<close>

text \<open>
  The second and third argument of \<open>convert\<close> are untyped: absent, a string, or an options
  object.
\<close>

datatype arg = Undefined | Str string | Opts "string obj"


text \<open>
  A property of a target holds a function or some other value. A function is called as
  \<open>func(request, opts)\<close> and throws or returns a value of some type \<open>'v\<close>; of another value
  only its truth value matters (\<open>Other False\<close> is a falsy value such as \<open>0\<close>, \<open>''\<close>,
  \<open>null\<close>, \<open>false\<close> or \<open>undefined\<close>).
\<close>

datatype 'v property = Function "request \<Rightarrow> arg \<Rightarrow> error + 'v" | Other bool

text \<open>In \<open>info\<close>, \<open>None\<close> says that the property is missing (\<open>"key" in target.info\<close> is
  false). \<open>default_client\<close> is the property \<open>default\<close>.\<close>

record target_info =
  key :: "string option"
  title :: "string option"
  extname :: "string option"
  default_client :: "string option"

text \<open>The own properties of a target: \<open>info\<close> and, in \<open>props\<close>, the others.\<close>

record 'v target =
  info :: "target_info option"
  props :: "'v property obj"











section \<open>A library instance for worked examples\<close>

text \<open>
  The examples below run \<open>prepare\<close> on concrete requests and need concrete collaborators.
  The URL parser is \<open>plain_url_parse\<close>, the reducer is \<open>reducer_spec\<close>, the case mapping
  is the one on ASCII strings; \<open>example_JSON_parse\<close> knows a few JSON texts and rejects
  every other text, as \<open>JSON.parse\<close> rejects \<open>{bad json\<close>; \<open>example_multipart_body\<close>
  renders one part per parameter.
\<close>

definition example_JSON_parse :: "string \<Rightarrow> json option" where
  "example_JSON_parse s =
     (if s = ''{}'' then Some (JObj [])
      else if s = ''[]'' then Some (JArr [])
      else if s = ''null'' then Some JNull
      else if s = ''true'' then Some (JBool True)
      else None)"

definition example_multipart_body :: "param list \<Rightarrow> string \<Rightarrow> string" where
  "example_multipart_body ps b =
     concat (map (\<lambda>p. ''--'' @ b @ [CHR 0x0D, CHR 0x0A]
                       @ ''Content-Disposition: form-data; name=\"'' @ name p @ ''\"''
                       @ [CHR 0x0D, CHR 0x0A, CHR 0x0D, CHR 0x0A] @ val p @ [CHR 0x0D, CHR 0x0A]) ps)
     @ ''--'' @ b @ ''--'' @ [CHR 0x0D, CHR 0x0A]"

definition example_lib :: lib where
  "example_lib =
     \<lparr>reducer = reducer_spec, url_parse = plain_url_parse, JSON_parse = example_JSON_parse,
      multipart_body = example_multipart_body, encode_auth = (\<lambda>a. a),
      lower_case = ascii_lower\<rparr>"

definition example_request :: request where
  "example_request =
     \<lparr>url = ''http://x.test/p'', fullUrl = [], queryString = [], headers = [], cookies = [],
      httpVersion = ''HTTP/1.1'', uriObj = None, queryObj = [], headersObj = [],
      cookiesObj = [], allHeaders = [],
      postData = \<lparr>mimeType = ''application/octet-stream'', text = None, params = None,
                  jsonObj = JBool False, paramsObj = None, boundary = None\<rparr>\<rparr>"




section \<open>The request as it reaches the \<open>switch\<close> on the mime type\<close>

definition pre_body :: "lib \<Rightarrow> request \<Rightarrow> request" where
  "pre_body l r =
     build_cookie_header
       (build_cookiesObj (build_headersObj l (build_queryObj l (reset_utility r))))"

section \<open>Facts about objects\<close>

lemma obj_get_obj_set:
  "obj_get (obj_set ob k v) k' = (if k' = k then Some v else obj_get ob k')"
  by (induction ob) (auto simp: obj_get_def)

lemma obj_keys_obj_set:
  "obj_keys (obj_set ob k v) = (if k \<in> set (obj_keys ob) then obj_keys ob else obj_keys ob @ [k])"
  by (induction ob) (force simp: obj_keys_def)+

lemma distinct_obj_set:
  "distinct (obj_keys ob) \<Longrightarrow> distinct (obj_keys (obj_set ob k v))"
  by (simp add: obj_keys_obj_set)


lemma find_first_match:
  "\<forall>x \<in> set pre. \<not> P x \<Longrightarrow> P y \<Longrightarrow> find P (pre @ y # post) = Some y"
  by (induction pre) auto

lemma map_of_first_match:
  "k \<notin> fst ` set pre \<Longrightarrow> map_of (pre @ (k, v) # post) k = Some v"
  by (induction pre) auto

lemma filter_eq_singleton:
  "distinct xs \<Longrightarrow> x \<in> set xs \<Longrightarrow> filter (\<lambda>k. k = x) xs = [x]"
  by (induction xs) (auto simp: filter_empty_conv)

lemma obj_get_insert_index:
  "obj_get (insert_index ob k v) k' = (if k' = k then Some v else obj_get ob k')"
  by (induction ob) (auto simp: obj_get_def)

lemma set_keys_insert_index:
  "set (obj_keys (insert_index ob k v)) = insert k (set (obj_keys ob))"
proof (induction ob)
  case Nil
  then show ?case by (simp add: obj_keys_def)
next
  case (Cons kv ob)
  obtain k' v' where kv: "kv = (k', v')" by (cases kv)
  have IH: "set (map fst (insert_index ob k v)) = insert k (set (map fst ob))"
    using Cons.IH by (simp only: obj_keys_def)
  show ?case
  proof (cases "is_array_index k' \<and> index_value k' < index_value k")
    case True
    then have "map fst (insert_index (kv # ob) k v) = k' # map fst (insert_index ob k v)"
      by (simp add: kv)
    then show ?thesis
      unfolding obj_keys_def using IH by (simp add: kv insert_commute)
  next
    case False
    then have "map fst (insert_index (kv # ob) k v) = k # k' # map fst ob"
      by (auto simp: kv)
    then show ?thesis
      unfolding obj_keys_def by (simp add: kv)
  qed
qed

lemma distinct_insert_index:
  "distinct (obj_keys ob) \<Longrightarrow> k \<notin> set (obj_keys ob) \<Longrightarrow>
   distinct (obj_keys (insert_index ob k v))"
proof (induction ob)
  case Nil
  then show ?case by (simp add: obj_keys_def)
next
  case (Cons kv ob)
  obtain k' v' where kv: "kv = (k', v')" by (cases kv)
  have tail: "distinct (obj_keys (insert_index ob k v))"
    using Cons by (simp add: obj_keys_def)
  have "k' \<notin> set (obj_keys ob)" and "k' \<noteq> k"
    using Cons.prems by (auto simp: kv obj_keys_def)
  then have "k' \<notin> set (obj_keys (insert_index ob k v))"
    by (simp add: set_keys_insert_index)
  then have "k' \<notin> set (map fst (insert_index ob k v))"
    unfolding obj_keys_def .
  moreover have "distinct (map fst (insert_index ob k v))"
    using tail unfolding obj_keys_def .
  ultimately show ?case
    using Cons.prems unfolding obj_keys_def by (auto simp: kv)
qed

lemma js_assign_get:
  "obj_get (js_assign ob k v) k' =
     (if k' = k \<and> k \<noteq> ''__proto__'' then Some v else obj_get ob k')"
  by (simp add: js_assign_def obj_get_obj_set obj_get_insert_index)

lemma js_assign_keys:
  "set (obj_keys (js_assign ob k v)) =
     (if k = ''__proto__'' then set (obj_keys ob) else insert k (set (obj_keys ob)))"
  by (auto simp: js_assign_def obj_keys_obj_set set_keys_insert_index)

lemma js_assign_distinct:
  "distinct (obj_keys ob) \<Longrightarrow> distinct (obj_keys (js_assign ob k v))"
  by (simp add: js_assign_def distinct_obj_set distinct_insert_index)

section \<open>Facts about the case mapping\<close>

lemma toLowerCase_Nil_iff: "toLowerCase l s = [] \<longleftrightarrow> s = []"
  by (simp add: toLowerCase_def)

lemma lower_char_idem: "lower_char (lower_char c) = lower_char c"
  by (auto simp: lower_char_def)

lemma ascii_lower_idem: "ascii_lower (ascii_lower s) = ascii_lower s"
  by (simp add: ascii_lower_def lower_char_idem)

lemma toLowerCase_example_lib: "toLowerCase example_lib s = ascii_lower s"
  by (simp add: toLowerCase_def example_lib_def ascii_lower_def)

section \<open>Facts about the two folds\<close>

lemma header_step_get:
  "obj_get (header_step l v ob h) k =
     (if (if http2 v then toLowerCase l (name h) else name h) = k \<and> k \<noteq> ''__proto__''
      then Some (val h) else obj_get ob k)"
  by (auto simp: header_step_def js_assign_get)

lemma header_fold_untouched:
  "\<forall>h \<in> set hs. (if http2 v then toLowerCase l (name h) else name h) \<noteq> k \<Longrightarrow>
   obj_get (foldl (header_step l v) ob hs) k = obj_get ob k"
  by (induction hs arbitrary: ob) (auto simp: header_step_get)

lemma header_fold_proto:
  "obj_get (foldl (header_step l v) ob hs) ''__proto__'' = obj_get ob ''__proto__''"
  by (induction hs arbitrary: ob) (auto simp: header_step_get)

lemma header_fold_last:
  assumes "hs = pre @ h # post"
    and "\<forall>h' \<in> set post. (if http2 v then toLowerCase l (name h') else name h')
            \<noteq> (if http2 v then toLowerCase l (name h) else name h)"
    and "(if http2 v then toLowerCase l (name h) else name h) \<noteq> ''__proto__''"
  shows "obj_get (foldl (header_step l v) ob hs)
           (if http2 v then toLowerCase l (name h) else name h) = Some (val h)"
  using assms by (simp add: header_fold_untouched header_step_get)

lemma header_fold_keys:
  "set (obj_keys (foldl (header_step l v) ob hs)) =
     set (obj_keys ob)
     \<union> ((\<lambda>h. if http2 v then toLowerCase l (name h) else name h) ` set hs - {''__proto__''})"
  by (induction hs arbitrary: ob) (auto simp: header_step_def js_assign_keys)

lemma header_fold_distinct:
  "distinct (obj_keys ob) \<Longrightarrow> distinct (obj_keys (foldl (header_step l v) ob hs))"
  by (induction hs arbitrary: ob) (auto simp: header_step_def js_assign_distinct)

lemma header_step_fold_eq:
  "foldl (header_step l v) ob hs =
     foldl (\<lambda>ob h. js_assign ob (if http2 v then toLowerCase l (name h) else name h) (val h)) ob hs"
  by (induction hs arbitrary: ob) (simp_all add: header_step_def)

lemma cookie_fold_get:
  "obj_get (foldr cookie_step cs ob) k =
     (if k = ''__proto__'' then obj_get ob k
      else case map_of (map (\<lambda>c. (name c, val c)) cs) k of
             None \<Rightarrow> obj_get ob k | Some v \<Rightarrow> Some v)"
  by (induction cs) (auto simp: cookie_step_def js_assign_get)

lemma cookie_fold_distinct:
  "distinct (obj_keys ob) \<Longrightarrow> distinct (obj_keys (foldr cookie_step cs ob))"
  by (induction cs) (auto simp: cookie_step_def js_assign_distinct)

lemma cookie_fold_keys:
  "set (obj_keys (foldr cookie_step cs ob)) = set (obj_keys ob) \<union> (name ` set cs - {''__proto__''})"
  by (induction cs) (auto simp: cookie_step_def js_assign_keys)

lemma lower_fixed_filter:
  assumes "\<forall>k \<in> set ks. toLowerCase l k = x \<longrightarrow> k = x" and "toLowerCase l x = x"
  shows "filter (\<lambda>k. toLowerCase l k = x) ks = filter (\<lambda>k. k = x) ks"
  using assms by (intro filter_cong) auto

section \<open>Stages of \<open>prepare\<close>\<close>

lemma prepare_stages:
  "prepare l r =
     (case normalize_body l (pre_body l r) of
        Inl e \<Rightarrow> Inl e
      | Inr b \<Rightarrow> Inr (reconcile_url l (merge_allHeaders b)))"
  by (simp add: prepare_def pre_body_def)

lemma pre_body_inputs:
  "url (pre_body l r) = url r"
  "queryString (pre_body l r) = queryString r"
  "headers (pre_body l r) = headers r"
  "cookies (pre_body l r) = cookies r"
  "httpVersion (pre_body l r) = httpVersion r"
  "postData (pre_body l r) = (postData r)\<lparr>jsonObj := JBool False, paramsObj := None\<rparr>"
  by (simp_all add: pre_body_def build_cookie_header_def build_cookiesObj_def
      build_headersObj_def build_queryObj_def reset_utility_def Let_def)

lemma pre_body_headersObj:
  "headersObj (pre_body l r) = foldl (header_step l (httpVersion r)) [] (headers r)"
  by (simp add: pre_body_def build_cookie_header_def build_cookiesObj_def
      build_headersObj_def build_queryObj_def reset_utility_def Let_def)

lemma pre_body_cookiesObj:
  "cookiesObj (pre_body l r) = foldr cookie_step (cookies r) []"
  by (simp add: pre_body_def build_cookie_header_def build_cookiesObj_def
      build_headersObj_def build_queryObj_def reset_utility_def Let_def)

lemma pre_body_queryObj:
  "queryObj (pre_body l r) =
     foldl (reducer l) [] (map (\<lambda>p. (name p, val p)) (queryString r))"
  by (simp add: pre_body_def build_cookie_header_def build_cookiesObj_def
      build_headersObj_def build_queryObj_def reset_utility_def Let_def)

lemma content_type_match_nonempty:
  "toLowerCase l k = toLowerCase l ''content-type'' \<Longrightarrow> k \<noteq> []"
  using toLowerCase_Nil_iff [of l "''content-type''"] toLowerCase_Nil_iff [of l k] by auto

lemma getHeaderName_content_type:
  "getHeaderName l hdrs ''content-type''
     = find (\<lambda>k. toLowerCase l k = toLowerCase l ''content-type'') (obj_keys hdrs)"
  unfolding getHeaderName_def
  by (rule find_cong) (auto dest: content_type_match_nonempty)

lemma hasHeader_content_type:
  "hasHeader l hdrs ''content-type'' \<longleftrightarrow> getHeaderName l hdrs ''content-type'' \<noteq> None"
  unfolding getHeaderName_content_type hasHeader_def
  by (auto split: option.splits dest!: find_Some_iff[THEN iffD1] content_type_match_nonempty)

lemma contentTypeHeader_defined:
  "(if hasHeader l hdrs ''content-type'' then getHeaderName l hdrs ''content-type''
    else Some ''content-type'')
   = Some (case getHeaderName l hdrs ''content-type'' of None \<Rightarrow> ''content-type'' | Some k \<Rightarrow> k)"
  by (auto simp: hasHeader_content_type)

lemma body_multipart_result:
  "body_multipart l r =
     Inr (case params (postData r) of
            None \<Rightarrow> r\<lparr>postData := (postData r)\<lparr>text := Some [], mimeType := ''multipart/form-data''\<rparr>\<rparr>
          | Some ps \<Rightarrow>
              r\<lparr>postData := (postData r)\<lparr>mimeType := ''multipart/form-data'',
                     text := Some (multipart_body l ps multipart_boundary),
                     boundary := Some multipart_boundary\<rparr>,
                headersObj :=
                  js_assign (headersObj r)
                    (case getHeaderName l (headersObj r) ''content-type'' of
                       None \<Rightarrow> ''content-type'' | Some k \<Rightarrow> k)
                    (''multipart/form-data; boundary='' @ multipart_boundary)\<rparr>)"
  unfolding body_multipart_def Let_def contentTypeHeader_defined
  by (simp split: option.splits)

lemma normalize_body_total: "\<exists>b. normalize_body l r = Inr b"
  by (simp add: normalize_body_def body_multipart_result)

lemma prepare_total: "\<exists>r'. prepare l r = Inr r'"
  using normalize_body_total [of l "pre_body l r"] by (auto simp: prepare_stages)

lemma normalize_body_frame:
  assumes "normalize_body l r = Inr b"
  shows "url b = url r" "queryObj b = queryObj r" "cookiesObj b = cookiesObj r"
    "allHeaders b = allHeaders r" "queryString b = queryString r"
  using assms
  by (auto simp: normalize_body_def body_multipart_result body_urlencoded_def body_json_def
      Let_def split: if_splits option.splits)

lemma normalize_body_headersObj:
  assumes "normalize_body l r = Inr b"
  shows "headersObj b =
     (if mimeType (postData r) \<in> set multipart_types \<and> params (postData r) \<noteq> None
      then js_assign (headersObj r)
             (case getHeaderName l (headersObj r) ''content-type'' of
                None \<Rightarrow> ''content-type'' | Some k \<Rightarrow> k)
             (''multipart/form-data; boundary='' @ multipart_boundary)
      else headersObj r)"
  using assms
  by (auto simp: normalize_body_def body_multipart_result body_urlencoded_def body_json_def
      Let_def split: if_splits option.splits)

lemma tail_frame:
  "headersObj (reconcile_url l (merge_allHeaders b)) = headersObj b"
  "cookiesObj (reconcile_url l (merge_allHeaders b)) = cookiesObj b"
  "postData (reconcile_url l (merge_allHeaders b)) = postData b"
  by (simp_all add: reconcile_url_def merge_allHeaders_def Let_def)

lemma prepare_headersObj:
  assumes "prepare l r = Inr r'"
  shows "headersObj r' =
     (if mimeType (postData r) \<in> set multipart_types \<and> params (postData r) \<noteq> None
      then js_assign (foldl (header_step l (httpVersion r)) [] (headers r))
             (case getHeaderName l (foldl (header_step l (httpVersion r)) [] (headers r)) ''content-type'' of
                None \<Rightarrow> ''content-type'' | Some k \<Rightarrow> k)
             (''multipart/form-data; boundary='' @ multipart_boundary)
      else foldl (header_step l (httpVersion r)) [] (headers r))"
proof -
  obtain b where b: "normalize_body l (pre_body l r) = Inr b"
    using normalize_body_total by blast
  then have r': "r' = reconcile_url l (merge_allHeaders b)"
    using assms by (simp add: prepare_stages)
  show ?thesis
    unfolding r' tail_frame normalize_body_headersObj [OF b]
    by (auto simp: pre_body_headersObj pre_body_inputs)
qed

lemma prepare_cookiesObj:
  assumes "prepare l r = Inr r'"
  shows "cookiesObj r' = foldr cookie_step (cookies r) []"
proof -
  obtain b where b: "normalize_body l (pre_body l r) = Inr b"
    using normalize_body_total by blast
  then have r': "r' = reconcile_url l (merge_allHeaders b)"
    using assms by (simp add: prepare_stages)
  show ?thesis
    unfolding r' tail_frame normalize_body_frame [OF b]
    by (simp add: pre_body_cookiesObj)
qed

lemma getHeaderName_Some:
  "getHeaderName l hdrs n = Some k \<Longrightarrow> k \<in> set (obj_keys hdrs) \<and> toLowerCase l k = toLowerCase l n"
  by (auto simp: getHeaderName_def find_Some_iff)

section \<open>Facts about \<open>Object.assign\<close> and the URL fields\<close>



lemma obj_set_new: "k \<notin> fst ` set ob \<Longrightarrow> obj_set ob k v = ob @ [(k, v)]"
  by (induction ob) auto

lemma obj_assign_fold_append:
  "distinct (map fst (a @ b)) \<Longrightarrow>
   foldl (\<lambda>t k. case obj_get (a @ b) k of None \<Rightarrow> t | Some v \<Rightarrow> obj_set t k v) a (map fst b) = a @ b"
proof (induction b arbitrary: a)
  case Nil
  then show ?case by simp
next
  case (Cons kv b)
  obtain k v where kv: "kv = (k, v)" by (cases kv)
  have notin: "k \<notin> fst ` set a"
    using Cons.prems by (auto simp: kv)
  have "obj_get (a @ kv # b) k = Some v"
    unfolding obj_get_def kv using notin by (rule map_of_first_match)
  moreover have "distinct (map fst ((a @ [kv]) @ b))"
    using Cons.prems by simp
  ultimately show ?case
    using Cons.IH [of "a @ [kv]"] notin by (simp add: kv obj_set_new)
qed

lemma obj_assign_empty: "distinct (obj_keys s) \<Longrightarrow> obj_assign [] s = s"
  using obj_assign_fold_append [of "[]" s] by (simp add: obj_assign_def obj_keys_def)

lemma url_format_cong:
  assumes "protocol u = protocol u'" "slashes u = slashes u'" "auth u = auth u'"
    "host u = host u'" "port u = port u'" "hostname u = hostname u'" "hash u = hash u'"
    "search u = search u'" "query u = query u'" "pathname u = pathname u'"
  shows "url_format l u = url_format l u'"
  unfolding url_format_def format_origin_def format_search_def format_fragment_def assms
  by (rule refl)

lemma reconcile_url_queryObj:
  "queryObj (reconcile_url l r) =
     (case query (url_parse l (url r)) of
        None \<Rightarrow> queryObj r
      | Some uq \<Rightarrow> obj_assign (queryObj r) uq)"
  by (simp add: reconcile_url_def Let_def)

lemma reconcile_url_url:
  "url (reconcile_url l r) = url_format l ((url_parse l (url r))\<lparr>query := None, search := None\<rparr>)"
proof -
  have "url (reconcile_url l r)
          = url_format l ((url_parse l (url r))\<lparr>query := None, search := None,
                            path := pathname (url_parse l (url r))\<rparr>)"
    by (simp add: reconcile_url_def Let_def)
  also have "\<dots> = url_format l ((url_parse l (url r))\<lparr>query := None, search := None\<rparr>)"
    by (rule url_format_cong) simp_all
  finally show ?thesis .
qed

lemma reconcile_url_fullUrl:
  "fullUrl (reconcile_url l r) =
     url_format l ((url_parse l (url r))
       \<lparr>query := Some (queryObj (reconcile_url l r)),
        search := Some (qs_stringify (queryObj (reconcile_url l r)))\<rparr>)"
proof -
  define u where "u = url_parse l (url r)"
  define q where "q = (case query u of None \<Rightarrow> queryObj r | Some uq \<Rightarrow> obj_assign (queryObj r) uq)"
  have q: "queryObj (reconcile_url l r) = q"
    by (simp add: reconcile_url_queryObj q_def u_def)
  have "fullUrl (reconcile_url l r)
          = url_format l
              (if qs_stringify q \<noteq> []
               then u\<lparr>query := None, search := None, path := pathname u, query := Some q,
                      search := Some (qs_stringify q),
                      path := Some (js_string (pathname u) @ ''?'' @ qs_stringify q)\<rparr>
               else u\<lparr>query := None, search := None, path := pathname u, query := Some q,
                      search := Some (qs_stringify q)\<rparr>)"
    unfolding reconcile_url_def Let_def u_def [symmetric] q_def [symmetric] by simp
  also have "\<dots> = url_format l (u\<lparr>query := Some q, search := Some (qs_stringify q)\<rparr>)"
    by (cases "qs_stringify q \<noteq> []"; simp only: if_True if_False; rule url_format_cong; simp)
  finally show ?thesis
    by (simp add: q u_def)
qed

lemma prepare_url_fields:
  assumes "prepare l r = Inr r'"
  shows "queryObj r' =
           (case query (url_parse l (url r)) of
              None \<Rightarrow> foldl (reducer l) [] (map (\<lambda>p. (name p, val p)) (queryString r))
            | Some uq \<Rightarrow>
                obj_assign (foldl (reducer l) [] (map (\<lambda>p. (name p, val p)) (queryString r))) uq)"
    and "url r' = url_format l ((url_parse l (url r))\<lparr>query := None, search := None\<rparr>)"
    and "fullUrl r' =
           url_format l ((url_parse l (url r))
             \<lparr>query := Some (queryObj r'), search := Some (qs_stringify (queryObj r'))\<rparr>)"
proof -
  obtain b where b: "normalize_body l (pre_body l r) = Inr b"
    using normalize_body_total by blast
  then have r': "r' = reconcile_url l (merge_allHeaders b)"
    using assms by (simp add: prepare_stages)
  have ub: "url (merge_allHeaders b) = url r"
    and qb: "queryObj (merge_allHeaders b)
               = foldl (reducer l) [] (map (\<lambda>p. (name p, val p)) (queryString r))"
    using normalize_body_frame [OF b]
    by (simp_all add: merge_allHeaders_def pre_body_inputs pre_body_queryObj)
  show "queryObj r' =
           (case query (url_parse l (url r)) of
              None \<Rightarrow> foldl (reducer l) [] (map (\<lambda>p. (name p, val p)) (queryString r))
            | Some uq \<Rightarrow>
                obj_assign (foldl (reducer l) [] (map (\<lambda>p. (name p, val p)) (queryString r))) uq)"
    unfolding r' reconcile_url_queryObj ub qb ..
  show "url r' = url_format l ((url_parse l (url r))\<lparr>query := None, search := None\<rparr>)"
    unfolding r' reconcile_url_url ub ..
  show "fullUrl r' =
           url_format l ((url_parse l (url r))
             \<lparr>query := Some (queryObj r'), search := Some (qs_stringify (queryObj r'))\<rparr>)"
    unfolding r' using reconcile_url_fullUrl [of l "merge_allHeaders b"] by (simp only: ub)
qed

lemma hex_digit_mem: "hex_digit n \<in> set ''0123456789ABCDEF''"
  unfolding hex_digit_def by (rule nth_mem) simp

lemma percent_encode_char_safe:
  assumes "x \<in> set (percent_encode_char c)"
  shows "x \<noteq> CHR ''#'' \<and> x \<noteq> CHR ''?''"
proof (cases "unreserved c")
  case True
  then have "x = c" using assms by (simp add: percent_encode_char_def)
  then show ?thesis using True by (auto simp: unreserved_def)
next
  case False
  then have "x = CHR ''%'' \<or> x \<in> set ''0123456789ABCDEF''"
    using assms hex_digit_mem [of "of_char c div 16"] hex_digit_mem [of "of_char c mod 16"]
    by (auto simp: percent_encode_char_def)
  then show ?thesis by auto
qed

lemma encodeURIComponent_safe:
  "x \<in> set (encodeURIComponent s) \<Longrightarrow> x \<noteq> CHR ''#'' \<and> x \<noteq> CHR ''?''"
  using percent_encode_char_safe by (auto simp: encodeURIComponent_def)

lemma qs_fields_safe:
  "f \<in> set (qs_fields kv) \<Longrightarrow> x \<in> set f \<Longrightarrow> x \<noteq> CHR ''#'' \<and> x \<noteq> CHR ''?''"
  by (cases "snd kv") (auto simp: qs_fields_def dest: encodeURIComponent_safe)

lemma join_safe:
  "\<forall>f \<in> set fs. \<forall>x \<in> set f. P x \<Longrightarrow> \<forall>x \<in> set sep. P x \<Longrightarrow> x \<in> set (join sep fs) \<Longrightarrow> P x"
  by (induction sep fs rule: join.induct) auto

lemma qs_stringify_safe:
  assumes "x \<in> set (qs_stringify q)"
  shows "x \<noteq> CHR ''#'' \<and> x \<noteq> CHR ''?''"
proof -
  have "\<forall>f \<in> set (concat (map qs_fields q)). \<forall>x \<in> set f. x \<noteq> CHR ''#'' \<and> x \<noteq> CHR ''?''"
    using qs_fields_safe by auto
  moreover have "\<forall>x \<in> set ''&''. x \<noteq> CHR ''#'' \<and> x \<noteq> CHR ''?''"
    by simp
  ultimately show ?thesis
    using assms unfolding qs_stringify_def by (rule join_safe)
qed

lemma escape_hash_id: "CHR ''#'' \<notin> set s \<Longrightarrow> escape_hash s = s"
  by (induction s) (auto simp: escape_hash_def)

lemma format_search_stringified:
  "format_search (u\<lparr>query := Some q, search := Some (qs_stringify q)\<rparr>)
     = (if qs_stringify q = [] then [] else ''?'' @ qs_stringify q)"
proof (cases "qs_stringify q = []")
  case True
  then show ?thesis
    by (simp add: format_search_def or_empty_def escape_hash_def)
next
  case False
  have "CHR ''#'' \<notin> set (qs_stringify q)"
    using qs_stringify_safe by blast
  then have e: "escape_hash (qs_stringify q) = qs_stringify q"
    by (rule escape_hash_id)
  have "hd (qs_stringify q) \<in> set (qs_stringify q)"
    using False by simp
  then have h: "hd (qs_stringify q) \<noteq> CHR ''?''"
    using qs_stringify_safe by blast
  show ?thesis
    using False by (simp add: format_search_def or_empty_def e h)
qed

lemma format_search_clean: "format_search (u\<lparr>query := None, search := None\<rparr>) = []"
  by (simp add: format_search_def or_empty_def escape_hash_def)

lemma format_origin_cong:
  assumes "protocol u = protocol u'" "slashes u = slashes u'" "auth u = auth u'"
    "host u = host u'" "port u = port u'" "hostname u = hostname u'"
    "pathname u = pathname u'"
  shows "format_origin l u = format_origin l u'"
  unfolding format_origin_def assms by (rule refl)

lemma format_origin_query_search:
  "format_origin l (u\<lparr>query := q, search := s\<rparr>) = format_origin l u"
  by (rule format_origin_cong) simp_all

lemma format_fragment_query_search:
  "format_fragment (u\<lparr>query := q, search := s\<rparr>) = format_fragment u"
  by (simp add: format_fragment_def)

lemma format_fragment_None: "hash u = None \<Longrightarrow> format_fragment u = []"
  by (simp add: format_fragment_def or_empty_def)

section \<open>Facts about the body branches and the reducer\<close>

lemma prepare_postData:
  assumes "prepare l r = Inr r'"
  shows "\<exists>b. normalize_body l (pre_body l r) = Inr b \<and> postData r' = postData b"
proof -
  obtain b where b: "normalize_body l (pre_body l r) = Inr b"
    using normalize_body_total by blast
  then have "r' = reconcile_url l (merge_allHeaders b)"
    using assms by (simp add: prepare_stages)
  then show ?thesis
    using b by (simp add: tail_frame)
qed

lemma normalize_body_json:
  "mimeType (postData p) \<in> set json_types \<Longrightarrow> normalize_body l p = Inr (body_json l p)"
  by (auto simp: normalize_body_def json_types_def multipart_types_def)

lemma normalize_body_urlencoded:
  "mimeType (postData p) = ''application/x-www-form-urlencoded'' \<Longrightarrow>
   normalize_body l p = Inr (body_urlencoded l p)"
  by (simp add: normalize_body_def multipart_types_def)

lemma reducer_spec_get:
  "obj_get (reducer_spec ob (n, v)) k = (if k = n then Some (QStr v) else obj_get ob k)"
  by (simp add: reducer_spec_def obj_get_obj_set)

lemma reducer_spec_untouched:
  "\<forall>p \<in> set ps. name p \<noteq> k \<Longrightarrow>
   obj_get (foldl reducer_spec ob (map (\<lambda>p. (name p, val p)) ps)) k = obj_get ob k"
  by (induction ps arbitrary: ob) (auto simp: reducer_spec_get)

lemma reducer_spec_last:
  assumes "ps = pre @ p # post" and "\<forall>p' \<in> set post. name p' \<noteq> name p"
  shows "obj_get (foldl reducer_spec ob (map (\<lambda>p. (name p, val p)) ps)) (name p) = Some (QStr (val p))"
  using assms by (simp add: reducer_spec_untouched reducer_spec_get)

lemma reducer_spec_keys:
  "set (obj_keys (foldl reducer_spec ob (map (\<lambda>p. (name p, val p)) ps)))
     = set (obj_keys ob) \<union> name ` set ps"
  by (induction ps arbitrary: ob) (auto simp: reducer_spec_def obj_keys_obj_set)

lemma reducer_spec_distinct:
  "distinct (obj_keys ob) \<Longrightarrow>
   distinct (obj_keys (foldl reducer_spec ob (map (\<lambda>p. (name p, val p)) ps)))"
  by (induction ps arbitrary: ob) (auto simp: reducer_spec_def distinct_obj_set)

section \<open>Facts about plain URLs\<close>

lemma split_at_first:
  assumes "c \<notin> set a" and "b = [] \<or> hd b = c"
  shows "takeWhile (\<lambda>x. x \<noteq> c) (a @ b) = a" and "dropWhile (\<lambda>x. x \<noteq> c) (a @ b) = b"
proof -
  have a: "\<forall>x \<in> set a. x \<noteq> c"
    using assms(1) by auto
  have tb: "takeWhile (\<lambda>x. x \<noteq> c) b = []" and db: "dropWhile (\<lambda>x. x \<noteq> c) b = b"
    using assms(2) by (cases b; simp)+
  show "takeWhile (\<lambda>x. x \<noteq> c) (a @ b) = a"
    using a by (simp add: tb)
  show "dropWhile (\<lambda>x. x \<noteq> c) (a @ b) = b"
    using a by (simp add: db)
qed

lemma host_chars_all:
  "list_all (\<lambda>c. c \<noteq> CHR ''#'' \<and> c \<noteq> CHR ''?'' \<and> c \<noteq> CHR ''/'')
     (''.'' @ letters @ ''0123456789'')"
  by code_simp

lemma path_chars_all:
  "list_all (\<lambda>c. c \<noteq> CHR ''#'' \<and> c \<noteq> CHR ''?'') (''/'' @ plain_chars)"
  by code_simp

lemma search_chars_all:
  "list_all (\<lambda>c. c \<noteq> CHR ''#'') (''&='' @ plain_chars)"
  by code_simp

lemma escape_pathname_id:
  "CHR ''#'' \<notin> set s \<Longrightarrow> CHR ''?'' \<notin> set s \<Longrightarrow> escape_pathname s = s"
  by (induction s) (auto simp: escape_pathname_def)

lemma plain_host_chars:
  assumes "plain_host h"
  shows "h \<noteq> []" "CHR ''#'' \<notin> set h" "CHR ''?'' \<notin> set h" "CHR ''/'' \<notin> set h"
    "ascii_lower h \<noteq> []"
proof -
  have sub: "set h \<subseteq> set (''.'' @ letters @ ''0123456789'')"
    using assms unfolding plain_host_def by blast
  have all: "\<forall>c \<in> set h. c \<noteq> CHR ''#'' \<and> c \<noteq> CHR ''?'' \<and> c \<noteq> CHR ''/''"
    using sub host_chars_all unfolding list_all_iff by blast
  show "h \<noteq> []" using assms unfolding plain_host_def by blast
  then show "ascii_lower h \<noteq> []" by (simp add: ascii_lower_def)
  show "CHR ''#'' \<notin> set h" using all by blast
  show "CHR ''?'' \<notin> set h" using all by blast
  show "CHR ''/'' \<notin> set h" using all by blast
qed

lemma plain_path_chars:
  assumes "plain_path p"
  shows "CHR ''#'' \<notin> set p" "CHR ''?'' \<notin> set p" "p = [] \<or> hd p = CHR ''/''"
proof -
  have sub: "set p \<subseteq> set (''/'' @ plain_chars)"
    using assms unfolding plain_path_def by auto
  have all: "\<forall>c \<in> set p. c \<noteq> CHR ''#'' \<and> c \<noteq> CHR ''?''"
    using sub path_chars_all unfolding list_all_iff by blast
  show "CHR ''#'' \<notin> set p" using all by blast
  show "CHR ''?'' \<notin> set p" using all by blast
  show "p = [] \<or> hd p = CHR ''/''" using assms unfolding plain_path_def by blast
qed

lemma plain_search_chars:
  assumes "plain_search q"
  shows "CHR ''#'' \<notin> set q" "q = [] \<or> hd q = CHR ''?''"
proof -
  show hd: "q = [] \<or> hd q = CHR ''?''"
    using assms unfolding plain_search_def by blast
  show "CHR ''#'' \<notin> set q"
  proof (cases q)
    case Nil
    then show ?thesis by simp
  next
    case (Cons x xs)
    then have x: "x = CHR ''?''" and sub: "set xs \<subseteq> set (''&='' @ plain_chars)"
      using assms unfolding plain_search_def by simp_all
    have "\<forall>c \<in> set xs. c \<noteq> CHR ''#''"
      using sub search_chars_all unfolding list_all_iff by blast
    then show ?thesis
      unfolding Cons x by auto
  qed
qed

lemma plain_fragment_chars:
  assumes "plain_fragment f"
  shows "f = [] \<or> hd f = CHR ''#''"
  using assms unfolding plain_fragment_def by blast

lemma scheme_chars:
  assumes "scheme = ''http'' \<or> scheme = ''https''"
  shows "CHR ''#'' \<notin> set scheme" "CHR ''?'' \<notin> set scheme" "CHR '':'' \<notin> set scheme"
    "ascii_lower scheme = scheme" "scheme \<noteq> []"
proof -
  have a: "ascii_lower ''http'' = ''http''" by code_simp
  have b: "ascii_lower ''https'' = ''https''" by code_simp
  show "CHR ''#'' \<notin> set scheme" using assms by auto
  show "CHR ''?'' \<notin> set scheme" using assms by auto
  show "CHR '':'' \<notin> set scheme" using assms by auto
  show "ascii_lower scheme = scheme" using assms a b by auto
  show "scheme \<noteq> []" using assms by auto
qed

lemma format_origin_plain:
  assumes "h \<noteq> []" and "CHR ''#'' \<notin> set p'" and "CHR ''?'' \<notin> set p'" and "p' \<noteq> []"
    and "hd p' = CHR ''/''" and "scheme \<noteq> []"
    and "protocol u = Some (scheme @ '':'')" and "slashes u = Some True" and "auth u = None"
    and "host u = Some h" and "pathname u = Some p'"
  shows "format_origin l u = scheme @ ''://'' @ h @ p'"
proof -
  have e: "escape_pathname p' = p'"
    using assms(2,3) by (rule escape_pathname_id)
  show ?thesis
    unfolding format_origin_def Let_def assms(7-11) or_empty_def option.case e
    using assms(1,4,5,6) by simp
qed

lemma format_fragment_plain:
  assumes "f = [] \<or> hd f = CHR ''#''" and "hash u = (if f = [] then None else Some f)"
  shows "format_fragment u = f"
  using assms by (auto simp: format_fragment_def or_empty_def)

lemma plain_qs_parse_distinct: "distinct (obj_keys (plain_qs_parse s))"
proof -
  have "distinct (obj_keys ob) \<Longrightarrow>
        distinct (obj_keys (foldl (\<lambda>ob f.
              if f = [] then ob
              else (let k = takeWhile (\<lambda>c. c \<noteq> CHR ''='') f;
                        v = drop 1 (dropWhile (\<lambda>c. c \<noteq> CHR ''='') f)
                    in obj_set ob k
                         (case obj_get ob k of
                            None \<Rightarrow> QStr v
                          | Some (QStr v0) \<Rightarrow> QArr [v0, v]
                          | Some (QArr vs) \<Rightarrow> QArr (vs @ [v])))) ob fs))" for ob fs
    by (induction fs arbitrary: ob) (simp_all add: Let_def distinct_obj_set)
  then show ?thesis
    unfolding plain_qs_parse_def by (simp add: obj_keys_def)
qed

lemma plain_url_parse_plain:
  assumes "scheme = ''http'' \<or> scheme = ''https''"
    and "plain_host h" and "plain_path p" and "plain_search q" and "plain_fragment f"
  shows "plain_url_parse (scheme @ ''://'' @ h @ p @ q @ f) =
     \<lparr>protocol = Some (scheme @ '':''), slashes = Some True, auth = None, host = Some (ascii_lower h),
      port = None, hostname = Some (ascii_lower h), hash = (if f = [] then None else Some f),
      search = (if q = [] then None else Some q), query = Some (plain_qs_parse (drop 1 q)),
      pathname = Some (if p = [] then ''/'' else p),
      path = Some ((if p = [] then ''/'' else p) @ q),
      href = Some (scheme @ ''://'' @ ascii_lower h @ (if p = [] then ''/'' else p) @ q @ f)\<rparr>"
proof -
  note sc = scheme_chars [OF assms(1)]
  note hc = plain_host_chars [OF assms(2)]
  note pc = plain_path_chars [OF assms(3)]
  note qc = plain_search_chars [OF assms(4)]
  note fc = plain_fragment_chars [OF assms(5)]
  have n1: "CHR ''#'' \<notin> set (scheme @ ''://'' @ h @ p @ q)"
    using sc(1) hc(2) pc(1) qc(1) by simp
  have s1: "takeWhile (\<lambda>c. c \<noteq> CHR ''#'') (scheme @ ''://'' @ h @ p @ q @ f)
              = scheme @ ''://'' @ h @ p @ q"
    and s1': "dropWhile (\<lambda>c. c \<noteq> CHR ''#'') (scheme @ ''://'' @ h @ p @ q @ f) = f"
    using split_at_first [OF n1 fc] by simp_all
  have n2: "CHR ''?'' \<notin> set (scheme @ ''://'' @ h @ p)"
    using sc(2) hc(3) pc(2) by simp
  have s2: "takeWhile (\<lambda>c. c \<noteq> CHR ''?'') (scheme @ ''://'' @ h @ p @ q) = scheme @ ''://'' @ h @ p"
    and s2': "dropWhile (\<lambda>c. c \<noteq> CHR ''?'') (scheme @ ''://'' @ h @ p @ q) = q"
    using split_at_first [OF n2 qc(2)] by simp_all
  have s3: "takeWhile (\<lambda>c. c \<noteq> CHR '':'') (scheme @ ''://'' @ h @ p) = scheme"
    using split_at_first(1) [of "CHR '':''" scheme "''://'' @ h @ p"] sc(3) by simp
  have d1: "drop (length scheme + 3) (scheme @ ''://'' @ h @ p) = h @ p"
    by simp
  have d2: "take 3 (drop (length scheme) (scheme @ ''://'' @ h @ p)) = ''://''"
    by simp
  have s4: "takeWhile (\<lambda>c. c \<noteq> CHR ''/'') (h @ p) = h"
    and s4': "dropWhile (\<lambda>c. c \<noteq> CHR ''/'') (h @ p) = p"
    using split_at_first [OF hc(4) pc(3)] by simp_all
  show ?thesis
    unfolding plain_url_parse_def Let_def s1 s1' s2 s2' s3 d1 d2 s4 s4' sc(4)
    by simp
qed

section \<open>Headers and cookies\<close>

text \<open>
  The headers block on every headers sequence. \<open>prepare\<close> returns, and \<open>headersObj\<close> is the
  left fold of the assignment \<open>headers[headerName] = value\<close> over the headers, in which the
  name is lower-cased exactly when \<open>httpVersion\<close> starts with \<open>HTTP/2\<close> and is kept as
  written otherwise. After the fold only the multipart branch touches \<open>headersObj\<close>: it
  sets the content-type entry. The key \<open>__proto__\<close> has no entry in the fold; for every
  other key the last header of that key decides the value.
\<close>

lemma prepare_headersObj_fold:
  "\<exists>r'. prepare l r = Inr r' \<and>
     (let H = foldl (\<lambda>ob h. js_assign ob
                      (if http2 (httpVersion r) then toLowerCase l (name h) else name h) (val h))
                [] (headers r)
      in headersObj r' =
           (if mimeType (postData r) \<in> set multipart_types \<and> params (postData r) \<noteq> None
            then js_assign H
                   (case getHeaderName l H ''content-type'' of
                      None \<Rightarrow> ''content-type'' | Some k \<Rightarrow> k)
                   (''multipart/form-data; boundary='' @ multipart_boundary)
            else H)
         \<and> obj_get H ''__proto__'' = None
         \<and> (\<forall>pre h post.
               headers r = pre @ h # post
               \<and> (\<forall>h' \<in> set post.
                     (if http2 (httpVersion r) then toLowerCase l (name h') else name h')
                       \<noteq> (if http2 (httpVersion r) then toLowerCase l (name h) else name h))
               \<and> (if http2 (httpVersion r) then toLowerCase l (name h) else name h) \<noteq> ''__proto__''
               \<longrightarrow> obj_get H (if http2 (httpVersion r) then toLowerCase l (name h) else name h)
                     = Some (val h)))"
proof -
  obtain r' where r': "prepare l r = Inr r'"
    using prepare_total by blast
  have last_wins: "obj_get (foldl (header_step l (httpVersion r)) [] (headers r))
                     (if http2 (httpVersion r) then toLowerCase l (name h) else name h) = Some (val h)"
    if "headers r = pre @ h # post"
      and "\<forall>h' \<in> set post.
             (if http2 (httpVersion r) then toLowerCase l (name h') else name h')
               \<noteq> (if http2 (httpVersion r) then toLowerCase l (name h) else name h)"
      and "(if http2 (httpVersion r) then toLowerCase l (name h) else name h) \<noteq> ''__proto__''"
    for pre h post
    using that by (rule header_fold_last)
  have proto: "obj_get (foldl (header_step l (httpVersion r)) [] (headers r)) ''__proto__'' = None"
    unfolding header_fold_proto by (simp add: obj_get_def)
  show ?thesis
    unfolding Let_def header_step_fold_eq [symmetric]
    using r' prepare_headersObj [OF r'] last_wins proto by blast
qed

text \<open>For example, under HTTP/2 the headers \<open>Accept: a\<close>, \<open>X-Id: 1\<close>, \<open>ACCEPT: b\<close> give the
  two entries \<open>accept: b\<close> and \<open>x-id: 1\<close>.\<close>

lemma prepare_headersObj_fold_example:
  "\<exists>r'. prepare example_lib
           (example_request\<lparr>httpVersion := ''HTTP/2'',
              headers := [\<lparr>name = ''Accept'', val = ''a''\<rparr>, \<lparr>name = ''X-Id'', val = ''1''\<rparr>,
                          \<lparr>name = ''ACCEPT'', val = ''b''\<rparr>]\<rparr>) = Inr r'
         \<and> headersObj r' = [(''accept'', ''b''), (''x-id'', ''1'')]
         \<and> obj_get (headersObj r') ''accept'' = Some ''b''"
proof -
  let ?R = "example_request\<lparr>httpVersion := ''HTTP/2'',
              headers := [\<lparr>name = ''Accept'', val = ''a''\<rparr>, \<lparr>name = ''X-Id'', val = ''1''\<rparr>,
                          \<lparr>name = ''ACCEPT'', val = ''b''\<rparr>]\<rparr>"
  have H: "foldl (\<lambda>ob h. js_assign ob
                      (if http2 (httpVersion ?R) then toLowerCase example_lib (name h) else name h)
                      (val h)) [] (headers ?R)
           = [(''accept'', ''b''), (''x-id'', ''1'')]"
    by code_simp
  have m: "\<not> (mimeType (postData ?R) \<in> set multipart_types \<and> params (postData ?R) \<noteq> None)"
    by (simp add: example_request_def)
  obtain r' where r': "prepare example_lib ?R = Inr r'"
    and h: "headersObj r' =
           (if mimeType (postData ?R) \<in> set multipart_types \<and> params (postData ?R) \<noteq> None
            then js_assign [(''accept'', ''b''), (''x-id'', ''1'')]
                   (case getHeaderName example_lib [(''accept'', ''b''), (''x-id'', ''1'')]
                           ''content-type'' of
                      None \<Rightarrow> ''content-type'' | Some k \<Rightarrow> k)
                   (''multipart/form-data; boundary='' @ multipart_boundary)
            else [(''accept'', ''b''), (''x-id'', ''1'')])"
    using prepare_headersObj_fold [of example_lib ?R] unfolding Let_def H by blast
  have "headersObj r' = [(''accept'', ''b''), (''x-id'', ''1'')]"
    using h m by (simp only: if_False)
  then show ?thesis
    using r' by (auto simp: obj_get_def)
qed

text \<open>
  Claim C1, at a header named \<open>__proto__\<close>. The claim has \<open>headersObj\<close> built by a fold in
  which every header name is inserted. The fold of the program assigns
  \<open>headers["__proto__"] = "x"\<close> on an object created by \<open>{}\<close>, which creates no entry: for
  the headers \<open>__proto__: x\<close> and \<open>a: 1\<close> under HTTP/1.1, \<open>headersObj\<close> has the one entry
  \<open>a: 1\<close> and nothing under the name \<open>__proto__\<close>.
\<close>

theorem headersObj_proto_header:
  "map_sum id (\<lambda>r'. (headersObj r', obj_get (headersObj r') ''__proto__''))
     (prepare example_lib
        (example_request\<lparr>headers := [\<lparr>name = ''__proto__'', val = ''x''\<rparr>,
                                     \<lparr>name = ''a'', val = ''1''\<rparr>]\<rparr>))
   = Inr ([(''a'', ''1'')], None)"
  by code_simp

text \<open>
  Claim C2, as stated: names that are equal ignoring case share one entry of
  \<open>headersObj\<close>, whatever the \<open>httpVersion\<close>. It fails for HTTP/1.1, where the names are
  not lower-cased: \<open>Accept\<close> and \<open>accept\<close> are two entries. It also fails for the name
  \<open>__proto__\<close>, which gets no entry: under HTTP/2 the headers \<open>__proto__\<close> and
  \<open>__PROTO__\<close> leave \<open>headersObj\<close> empty.
\<close>

theorem headersObj_case_duplicates_counterexample:
  "map_sum id (\<lambda>r'. filter (\<lambda>k. toLowerCase example_lib k = toLowerCase example_lib ''accept'')
                       (obj_keys (headersObj r')))
     (prepare example_lib
        (example_request\<lparr>httpVersion := ''HTTP/1.1'',
           headers := [\<lparr>name = ''Accept'', val = ''a''\<rparr>, \<lparr>name = ''accept'', val = ''b''\<rparr>]\<rparr>))
   = Inr [''Accept'', ''accept'']
   \<and> map_sum id (\<lambda>r'. filter (\<lambda>k. toLowerCase example_lib k = toLowerCase example_lib ''__proto__'')
                       (obj_keys (headersObj r')))
     (prepare example_lib
        (example_request\<lparr>httpVersion := ''HTTP/2'',
           headers := [\<lparr>name = ''__proto__'', val = ''a''\<rparr>, \<lparr>name = ''__PROTO__'', val = ''b''\<rparr>]\<rparr>))
   = Inr []"
  by code_simp

text \<open>
  Claim C2, amended. Let \<open>h\<close> be the last header of its key, where the key of a header is
  its name lower-cased if \<open>httpVersion\<close> indicates HTTP/2 and its name as written
  otherwise; let the key not be \<open>__proto__\<close>, and let \<open>h\<close> not be a content-type header of a
  multipart body with parameters (whose entry the multipart branch rewrites). Then
  \<open>headersObj\<close> has exactly one entry under the key, and it holds the value of \<open>h\<close>. Under
  HTTP/2 that entry is the only one whose key equals the name ignoring case (lower-casing
  a lower-cased string changes nothing in JavaScript; the statement says where it uses
  that). Under another version, names that differ in case keep separate entries.
\<close>

theorem headersObj_last_occurrence:
  assumes "headers r = pre @ h # post"
    and "\<forall>h' \<in> set post.
           (if http2 (httpVersion r) then toLowerCase l (name h') else name h')
             \<noteq> (if http2 (httpVersion r) then toLowerCase l (name h) else name h)"
    and "(if http2 (httpVersion r) then toLowerCase l (name h) else name h) \<noteq> ''__proto__''"
    and "\<not> (mimeType (postData r) \<in> set multipart_types \<and> params (postData r) \<noteq> None
            \<and> toLowerCase l (if http2 (httpVersion r) then toLowerCase l (name h) else name h)
                = toLowerCase l ''content-type'')"
  shows "\<exists>r'. prepare l r = Inr r' \<and>
           filter (\<lambda>k. k = (if http2 (httpVersion r) then toLowerCase l (name h) else name h))
             (obj_keys (headersObj r'))
             = [if http2 (httpVersion r) then toLowerCase l (name h) else name h]
           \<and> obj_get (headersObj r')
               (if http2 (httpVersion r) then toLowerCase l (name h) else name h) = Some (val h)
           \<and> (http2 (httpVersion r) \<and> (\<forall>s. toLowerCase l (toLowerCase l s) = toLowerCase l s)
                \<longrightarrow> filter (\<lambda>k. toLowerCase l k = toLowerCase l (name h)) (obj_keys (headersObj r'))
                      = [toLowerCase l (name h)])"
proof -
  define v where "v = httpVersion r"
  define K where "K = (\<lambda>x::nv. if http2 v then toLowerCase l (name x) else name x)"
  define H where "H = foldl (header_step l v) [] (headers r)"
  define c where "c = (case getHeaderName l H ''content-type'' of None \<Rightarrow> ''content-type'' | Some k \<Rightarrow> k)"
  define rewrite where
    "rewrite \<longleftrightarrow> mimeType (postData r) \<in> set multipart_types \<and> params (postData r) \<noteq> None"
  obtain r' where r': "prepare l r = Inr r'"
    using prepare_total by blast
  have final: "headersObj r' =
      (if rewrite then js_assign H c (''multipart/form-data; boundary='' @ multipart_boundary) else H)"
    using prepare_headersObj [OF r'] by (auto simp: H_def c_def v_def rewrite_def)
  have Kh: "K h \<noteq> ''__proto__''"
    using assms(3) by (simp add: K_def v_def)
  have getH: "obj_get H (K h) = Some (val h)"
    unfolding H_def K_def using assms(1,2,3) by (intro header_fold_last) (auto simp: v_def)
  have keysH: "set (obj_keys H) = K ` set (headers r) - {''__proto__''}"
    unfolding H_def K_def header_fold_keys by (simp add: obj_keys_def)
  have distH: "distinct (obj_keys H)"
    unfolding H_def by (rule header_fold_distinct) (simp add: obj_keys_def)
  have c_lower: "toLowerCase l c = toLowerCase l ''content-type''"
    unfolding c_def by (auto split: option.splits dest: getHeaderName_Some)
  have Kh_ne_c: "K h \<noteq> c" if rewrite
  proof
    assume "K h = c"
    then have "toLowerCase l (K h) = toLowerCase l ''content-type''"
      using c_lower by simp
    then show False using assms(4) that by (simp add: rewrite_def K_def v_def)
  qed
  have get: "obj_get (headersObj r') (K h) = Some (val h)"
    using getH Kh_ne_c by (simp add: final js_assign_get)
  have dist: "distinct (obj_keys (headersObj r'))"
    using distH by (simp add: final js_assign_distinct)
  have mem: "K h \<in> set (obj_keys (headersObj r'))"
    using keysH assms(1) Kh by (auto simp: final js_assign_keys)
  have one: "filter (\<lambda>k. k = K h) (obj_keys (headersObj r')) = [K h]"
    using dist mem by (rule filter_eq_singleton)
  have folded: "filter (\<lambda>k. toLowerCase l k = toLowerCase l (name h)) (obj_keys (headersObj r'))
                  = [toLowerCase l (name h)]"
    if h2: "http2 v" and idem: "\<forall>s. toLowerCase l (toLowerCase l s) = toLowerCase l s"
  proof -
    have Kh_eq: "K h = toLowerCase l (name h)"
      using h2 by (simp add: K_def)
    have "k = toLowerCase l (name h)"
      if k: "k \<in> set (obj_keys (headersObj r'))" and m: "toLowerCase l k = toLowerCase l (name h)"
      for k
    proof (cases "k \<in> set (obj_keys H)")
      case True
      then have "k \<in> K ` set (headers r)"
        using keysH by auto
      then obtain x where "k = K x"
        by blast
      then have "k = toLowerCase l (name x)"
        using h2 by (simp add: K_def)
      then show ?thesis using m idem by simp
    next
      case False
      then have "rewrite" and "k = c"
        using k by (auto simp: final js_assign_keys split: if_splits)
      then have "toLowerCase l (K h) = toLowerCase l ''content-type''"
        using m c_lower idem by (simp add: Kh_eq)
      then show ?thesis
        using assms(4) \<open>rewrite\<close> by (simp add: rewrite_def K_def v_def)
    qed
    then have "filter (\<lambda>k. toLowerCase l k = toLowerCase l (name h)) (obj_keys (headersObj r'))
                 = filter (\<lambda>k. k = toLowerCase l (name h)) (obj_keys (headersObj r'))"
      using idem by (intro lower_fixed_filter) auto
    then show ?thesis
      using one by (simp add: Kh_eq)
  qed
  show ?thesis
    using r' one get folded unfolding K_def v_def by blast
qed

theorem headersObj_last_occurrence_witness:
  "\<exists>r'. prepare example_lib
           (example_request\<lparr>httpVersion := ''HTTP/2'',
              headers := [\<lparr>name = ''Accept'', val = ''a''\<rparr>, \<lparr>name = ''X-Id'', val = ''1''\<rparr>,
                          \<lparr>name = ''ACCEPT'', val = ''b''\<rparr>]\<rparr>) = Inr r'
         \<and> filter (\<lambda>k. k = ''accept'') (obj_keys (headersObj r')) = [''accept'']
         \<and> obj_get (headersObj r') ''accept'' = Some ''b''
         \<and> filter (\<lambda>k. ascii_lower k = ''accept'') (obj_keys (headersObj r')) = [''accept'']"
  using headersObj_last_occurrence [of
      "example_request\<lparr>httpVersion := ''HTTP/2'',
         headers := [\<lparr>name = ''Accept'', val = ''a''\<rparr>, \<lparr>name = ''X-Id'', val = ''1''\<rparr>,
                     \<lparr>name = ''ACCEPT'', val = ''b''\<rparr>]\<rparr>"
      "[\<lparr>name = ''Accept'', val = ''a''\<rparr>, \<lparr>name = ''X-Id'', val = ''1''\<rparr>]"
      "\<lparr>name = ''ACCEPT'', val = ''b''\<rparr>" "[]" example_lib]
  by (auto simp: example_request_def http2_def toLowerCase_example_lib ascii_lower_idem
      multipart_types_def ascii_lower_def lower_char_def)

text \<open>
  The cookies block on every name but \<open>__proto__\<close>. \<open>cookiesObj\<close> maps a cookie name to
  the value of its first occurrence in the cookie sequence, in one entry: the fold runs
  from the right, so the first cookie is assigned last. The name \<open>__proto__\<close> has no
  entry.
\<close>

lemma cookiesObj_first_occurrence:
  assumes "cookies r = pre @ c # post" and "\<forall>c' \<in> set pre. name c' \<noteq> name c"
    and "name c \<noteq> ''__proto__''"
  shows "\<exists>r'. prepare l r = Inr r'
           \<and> obj_get (cookiesObj r') (name c) = Some (val c)
           \<and> filter (\<lambda>k. k = name c) (obj_keys (cookiesObj r')) = [name c]
           \<and> (\<forall>n. obj_get (cookiesObj r') n
                 = (if n = ''__proto__'' then None
                    else map_of (map (\<lambda>c. (name c, val c)) (cookies r)) n))"
proof -
  obtain r' where r': "prepare l r = Inr r'"
    using prepare_total by blast
  have ck: "cookiesObj r' = foldr cookie_step (cookies r) []"
    using r' by (rule prepare_cookiesObj)
  have all: "obj_get (cookiesObj r') n
               = (if n = ''__proto__'' then None
                  else map_of (map (\<lambda>c. (name c, val c)) (cookies r)) n)" for n
    unfolding ck cookie_fold_get by (simp add: obj_get_def split: option.splits)
  have "name c \<notin> fst ` set (map (\<lambda>c. (name c, val c)) pre)"
    using assms(2) by auto
  then have "map_of (map (\<lambda>c. (name c, val c)) pre @ (name c, val c)
                  # map (\<lambda>c. (name c, val c)) post) (name c) = Some (val c)"
    by (rule map_of_first_match)
  then have first: "map_of (map (\<lambda>c. (name c, val c)) (cookies r)) (name c) = Some (val c)"
    by (simp add: assms(1))
  have "distinct (obj_keys (cookiesObj r'))"
    unfolding ck by (rule cookie_fold_distinct) (simp add: obj_keys_def)
  moreover have "name c \<in> set (obj_keys (cookiesObj r'))"
    unfolding ck cookie_fold_keys using assms(1,3) by simp
  ultimately have one: "filter (\<lambda>k. k = name c) (obj_keys (cookiesObj r')) = [name c]"
    by (rule filter_eq_singleton)
  show ?thesis
    using r' all first one assms(3) by auto
qed

lemma cookiesObj_first_occurrence_example:
  "\<exists>r'. prepare example_lib
           (example_request\<lparr>cookies := [\<lparr>name = ''sid'', val = ''1''\<rparr>, \<lparr>name = ''lang'', val = ''en''\<rparr>,
                                       \<lparr>name = ''sid'', val = ''2''\<rparr>]\<rparr>) = Inr r'
         \<and> obj_get (cookiesObj r') ''sid'' = Some ''1''
         \<and> filter (\<lambda>k. k = ''sid'') (obj_keys (cookiesObj r')) = [''sid'']"
  using cookiesObj_first_occurrence [of
      "example_request\<lparr>cookies := [\<lparr>name = ''sid'', val = ''1''\<rparr>, \<lparr>name = ''lang'', val = ''en''\<rparr>,
                                   \<lparr>name = ''sid'', val = ''2''\<rparr>]\<rparr>"
      "[]" "\<lparr>name = ''sid'', val = ''1''\<rparr>"
      "[\<lparr>name = ''lang'', val = ''en''\<rparr>, \<lparr>name = ''sid'', val = ''2''\<rparr>]" example_lib]
  by (auto simp: example_request_def)

text \<open>
  Claim C3, at a cookie named \<open>__proto__\<close>. The claim has every cookie name mapped to the
  value of its first occurrence. The fold of the program assigns
  \<open>cookies["__proto__"] = value\<close> on an object created by \<open>{}\<close>, which creates no entry:
  for the cookies \<open>__proto__=x\<close> and \<open>__proto__=y\<close>, \<open>cookiesObj\<close> is empty and maps the
  name to nothing.
\<close>

theorem cookiesObj_proto_cookie:
  "map_sum id (\<lambda>r'. (cookiesObj r', obj_get (cookiesObj r') ''__proto__''))
     (prepare example_lib
        (example_request\<lparr>cookies := [\<lparr>name = ''__proto__'', val = ''x''\<rparr>,
                                     \<lparr>name = ''__proto__'', val = ''y''\<rparr>]\<rparr>))
   = Inr ([], None)"
  by code_simp

section \<open>Query object and URLs\<close>



text \<open>
  Claim C5, as stated: with an empty explicit query string, \<open>url\<close> is the raw URL with
  its query removed, and \<open>fullUrl\<close> is that \<open>url\<close> followed by \<open>?\<close> and the serialised
  \<open>queryObj\<close>. The second part fails for a URL with a fragment: for
  \<open>http://x.test/p?x=1#f\<close>, \<open>url\<close> keeps the fragment and in \<open>fullUrl\<close> the query stands
  before it. The first part fails for a URL without a path, which gets the path \<open>/\<close>
  (\<open>http://x.test?x=1\<close> gives \<open>http://x.test/\<close>, not \<open>http://x.test\<close>), and for a host name
  with upper-case letters, which is lower-cased (\<open>http://X.test/p?x=1\<close> gives
  \<open>http://x.test/p\<close>).
\<close>

theorem fullUrl_fragment_counterexample:
  "map_sum id (\<lambda>r'. (url r', fullUrl r', fullUrl r' = url r' @ ''?'' @ qs_stringify (queryObj r')))
     (prepare example_lib (example_request\<lparr>url := ''http://x.test/p?x=1#f''\<rparr>))
   = Inr (''http://x.test/p#f'', ''http://x.test/p?x=1#f'', False)
   \<and> map_sum id (\<lambda>r'. (url r', url r' = ''http://x.test'', fullUrl r'))
     (prepare example_lib (example_request\<lparr>url := ''http://x.test?x=1''\<rparr>))
   = Inr (''http://x.test/'', False, ''http://x.test/?x=1'')
   \<and> map_sum id (\<lambda>r'. (url r', url r' = ''http://X.test/p'', fullUrl r'))
     (prepare example_lib (example_request\<lparr>url := ''http://X.test/p?x=1''\<rparr>))
   = Inr (''http://x.test/p'', False, ''http://x.test/p?x=1'')"
  by code_simp

text \<open>
  Claim C5, amended. Let the explicit query string be empty and the raw URL be a plain
  absolute URL: \<open>http\<close> or \<open>https\<close>, \<open>://\<close>, a host \<open>h\<close>, and a path \<open>p\<close>, a query \<open>q\<close> and a
  fragment \<open>f\<close>, each of which may be missing. Then \<open>prepare\<close> returns; \<open>queryObj\<close> is the
  parsed query of the URL; \<open>url\<close> is the raw URL with its query removed, the host
  lower-cased and the path \<open>/\<close> supplied when it is missing; \<open>fullUrl\<close> is the same with
  \<open>?\<close> and the serialised \<open>queryObj\<close>, when that is not empty, between the path and the
  fragment. For a URL without fragment \<open>fullUrl\<close> is \<open>url\<close> followed by \<open>?\<close> and the
  serialised \<open>queryObj\<close>. The parser is \<open>plain_url_parse\<close>, Node's \<open>url.parse\<close> on such
  URLs; nothing is said about other URLs.
\<close>

theorem url_and_fullUrl:
  assumes "queryString r = []"
    and "url r = scheme @ ''://'' @ h @ p @ q @ f"
    and "scheme = ''http'' \<or> scheme = ''https''"
    and "plain_host h" and "plain_path p" and "plain_search q" and "plain_fragment f"
  shows "\<exists>r'. prepare (l\<lparr>url_parse := plain_url_parse\<rparr>) r = Inr r' \<and>
           (let s = qs_stringify (queryObj r');
                base = scheme @ ''://'' @ ascii_lower h @ (if p = [] then ''/'' else p)
            in queryObj r' = plain_qs_parse (drop 1 q)
               \<and> url r' = base @ f
               \<and> fullUrl r' = base @ (if s = [] then [] else ''?'' @ s) @ f
               \<and> (f = [] \<longrightarrow> fullUrl r' = url r' @ (if s = [] then [] else ''?'' @ s)))"
proof -
  let ?L = "l\<lparr>url_parse := plain_url_parse\<rparr>"
  define p' where "p' = (if p = [] then ''/'' else p)"
  define U where "U = plain_url_parse (url r)"
  obtain r' where r': "prepare ?L r = Inr r'"
    using prepare_total by blast
  have U: "U =
     \<lparr>protocol = Some (scheme @ '':''), slashes = Some True, auth = None,
      host = Some (ascii_lower h), port = None, hostname = Some (ascii_lower h),
      hash = (if f = [] then None else Some f),
      search = (if q = [] then None else Some q), query = Some (plain_qs_parse (drop 1 q)),
      pathname = Some (if p = [] then ''/'' else p),
      path = Some ((if p = [] then ''/'' else p) @ q),
      href = Some (scheme @ ''://'' @ ascii_lower h @ (if p = [] then ''/'' else p) @ q @ f)\<rparr>"
    unfolding U_def assms(2) using assms(3-7) by (rule plain_url_parse_plain)
  have fields: "protocol U = Some (scheme @ '':'')" "slashes U = Some True" "auth U = None"
    "host U = Some (ascii_lower h)" "pathname U = Some p'"
    unfolding U p'_def by simp_all
  have hashU: "hash U = (if f = [] then None else Some f)"
    unfolding U by simp
  have queryU: "query U = Some (plain_qs_parse (drop 1 q))"
    unfolding U by simp
  have up: "url_parse ?L (url r) = U"
    by (simp add: U_def)
  note F = prepare_url_fields [OF r', unfolded up]
  have qo: "queryObj r' = plain_qs_parse (drop 1 q)"
    using F(1) by (simp add: queryU assms(1) obj_assign_empty plain_qs_parse_distinct)
  note hc = plain_host_chars [OF assms(4)]
  note pc = plain_path_chars [OF assms(5)]
  have p'1: "p' \<noteq> []" and p'2: "hd p' = CHR ''/''"
    and p'3: "CHR ''#'' \<notin> set p'" and p'4: "CHR ''?'' \<notin> set p'"
    using pc unfolding p'_def by auto
  have sne: "scheme \<noteq> []"
    using assms(3) by auto
  have originU: "format_origin ?L U = scheme @ ''://'' @ ascii_lower h @ p'"
    using hc(5) p'3 p'4 p'1 p'2 sne fields by (rule format_origin_plain)
  have origin: "format_origin ?L (U\<lparr>query := a, search := b\<rparr>) = scheme @ ''://'' @ ascii_lower h @ p'"
    for a b
    unfolding format_origin_query_search by (rule originU)
  have fragU: "format_fragment U = f"
    using plain_fragment_chars [OF assms(7)] hashU by (rule format_fragment_plain)
  have frag: "format_fragment (U\<lparr>query := a, search := b\<rparr>) = f" for a b
    unfolding format_fragment_query_search by (rule fragU)
  have u: "url r' = (scheme @ ''://'' @ ascii_lower h @ p') @ f"
    unfolding F(2) url_format_def origin frag format_search_clean by simp
  have fu: "fullUrl r' = (scheme @ ''://'' @ ascii_lower h @ p')
              @ (if qs_stringify (queryObj r') = [] then [] else ''?'' @ qs_stringify (queryObj r'))
              @ f"
    unfolding F(3) url_format_def origin frag format_search_stringified by simp
  show ?thesis
    unfolding Let_def p'_def [symmetric]
    using r' qo u fu by auto
qed

theorem url_and_fullUrl_witness:
  "\<exists>r'. prepare example_lib (example_request\<lparr>url := ''http://x.test/p?x=1''\<rparr>) = Inr r'
         \<and> queryObj r' = [(''x'', QStr ''1'')]
         \<and> url r' = ''http://x.test/p''
         \<and> fullUrl r' = ''http://x.test/p?x=1''"
proof -
  have e: "example_lib\<lparr>url_parse := plain_url_parse\<rparr> = example_lib"
    by (simp add: example_lib_def)
  have h1: "plain_host ''x.test''" by code_simp
  have h2: "plain_path ''/p''" by code_simp
  have h3: "plain_search ''?x=1''" by code_simp
  have h4: "plain_fragment []" by code_simp
  have q: "plain_qs_parse (drop 1 ''?x=1'') = [(''x'', QStr ''1'')]" by code_simp
  have s: "qs_stringify [(''x'', QStr ''1'')] = ''x=1''" by code_simp
  have a: "ascii_lower ''x.test'' = ''x.test''" by code_simp
  have "\<exists>r'. prepare example_lib (example_request\<lparr>url := ''http://x.test/p?x=1''\<rparr>) = Inr r' \<and>
           (let s = qs_stringify (queryObj r');
                base = ''http'' @ ''://'' @ ascii_lower ''x.test'' @ (if ''/p'' = [] then ''/'' else ''/p'')
            in queryObj r' = plain_qs_parse (drop 1 ''?x=1'')
               \<and> url r' = base @ []
               \<and> fullUrl r' = base @ (if s = [] then [] else ''?'' @ s) @ []
               \<and> ([] = ([]::string) \<longrightarrow> fullUrl r' = url r' @ (if s = [] then [] else ''?'' @ s)))"
    using url_and_fullUrl [of "example_request\<lparr>url := ''http://x.test/p?x=1''\<rparr>" "''http''"
        "''x.test''" "''/p''" "''?x=1''" "[]" example_lib] h1 h2 h3 h4
    unfolding e by (simp add: example_request_def)
  then obtain r' where r': "prepare example_lib (example_request\<lparr>url := ''http://x.test/p?x=1''\<rparr>) = Inr r'"
    and qo: "queryObj r' = [(''x'', QStr ''1'')]"
    and u: "url r' = ''http'' @ ''://'' @ ''x.test'' @ ''/p''"
    and fu: "fullUrl r' = (''http'' @ ''://'' @ ''x.test'' @ ''/p'')
               @ (if qs_stringify (queryObj r') = [] then [] else ''?'' @ qs_stringify (queryObj r'))"
    unfolding Let_def q a by auto
  have "fullUrl r' = ''http://x.test/p?x=1''"
    unfolding fu qo s by simp
  then show ?thesis
    using r' qo u by auto
qed

section \<open>Post bodies\<close>

text \<open>
  Claim C6. For a request with a JSON-family mime type \<open>prepare\<close> returns without an
  error and leaves \<open>text\<close> as it was. The mime type becomes \<open>application/json\<close>; when
  \<open>text\<close> is there and not empty, \<open>jsonObj\<close> is the value \<open>JSON.parse\<close> returns for it, and
  when \<open>JSON.parse\<close> throws, the mime type becomes \<open>text/plain\<close> and \<open>jsonObj\<close> stays
  \<open>false\<close>. In particular the text \<open>{bad json\<close>, which \<open>JSON.parse\<close> rejects, gives
  \<open>text/plain\<close> and the same text.
\<close>

theorem json_body:
  assumes "mimeType (postData r) \<in> set json_types"
  shows "\<exists>r'. prepare l r = Inr r'
     \<and> text (postData r') = text (postData r)
     \<and> (case text (postData r) of
          None \<Rightarrow> mimeType (postData r') = ''application/json'' \<and> jsonObj (postData r') = JBool False
        | Some t \<Rightarrow>
            if t = [] then
              mimeType (postData r') = ''application/json'' \<and> jsonObj (postData r') = JBool False
            else (case JSON_parse l t of
                    Some j \<Rightarrow> mimeType (postData r') = ''application/json'' \<and> jsonObj (postData r') = j
                  | None \<Rightarrow> mimeType (postData r') = ''text/plain''
                            \<and> jsonObj (postData r') = JBool False))
     \<and> (text (postData r) = Some ''{bad json'' \<and> JSON_parse l ''{bad json'' = None
          \<longrightarrow> mimeType (postData r') = ''text/plain'' \<and> text (postData r') = Some ''{bad json'')"
proof -
  obtain r' where r': "prepare l r = Inr r'"
    using prepare_total by blast
  have "mimeType (postData (pre_body l r)) \<in> set json_types"
    using assms by (simp add: pre_body_inputs)
  then have "normalize_body l (pre_body l r) = Inr (body_json l (pre_body l r))"
    by (rule normalize_body_json)
  then have pd: "postData r' = postData (body_json l (pre_body l r))"
    using prepare_postData [OF r'] by auto
  show ?thesis
    by (rule exI [of _ r'])
      (auto simp: r' pd body_json_def pre_body_inputs Let_def split: option.splits)
qed

theorem json_body_witness:
  "\<exists>r'. prepare example_lib
           (example_request\<lparr>postData := (postData example_request)
              \<lparr>mimeType := ''application/json'', text := Some ''{bad json''\<rparr>\<rparr>) = Inr r'
         \<and> mimeType (postData r') = ''text/plain'' \<and> text (postData r') = Some ''{bad json''"
  using json_body [of
      "example_request\<lparr>postData := (postData example_request)
         \<lparr>mimeType := ''application/json'', text := Some ''{bad json''\<rparr>\<rparr>" example_lib]
  by (auto simp: example_request_def json_types_def example_lib_def example_JSON_parse_def)

text \<open>
  Claim C7, with the reducer of the specification. For a request with mime type
  \<open>application/x-www-form-urlencoded\<close>: without \<open>params\<close> the text becomes the empty
  string; with \<open>params\<close>, \<open>paramsObj\<close> has one entry per parameter name, holding the value
  of the last parameter of that name, and \<open>text\<close> becomes the query-string serialisation
  of \<open>paramsObj\<close>, whatever \<open>text\<close> was before. The parameters \<open>a=1\<close>, \<open>a=2\<close> give the
  text \<open>a=2\<close>.
\<close>

theorem urlencoded_body:
  assumes "mimeType (postData r) = ''application/x-www-form-urlencoded''"
  shows "\<exists>r'. prepare (l\<lparr>reducer := reducer_spec\<rparr>) r = Inr r'
     \<and> (case params (postData r) of
          None \<Rightarrow> text (postData r') = Some [] \<and> paramsObj (postData r') = None
        | Some ps \<Rightarrow>
            (\<exists>po. paramsObj (postData r') = Some po
               \<and> text (postData r') = Some (qs_stringify po)
               \<and> distinct (obj_keys po) \<and> set (obj_keys po) = name ` set ps
               \<and> (\<forall>pre p post.
                     ps = pre @ p # post \<and> (\<forall>p' \<in> set post. name p' \<noteq> name p)
                     \<longrightarrow> obj_get po (name p) = Some (QStr (val p)))))
     \<and> (\<forall>f1 c1 f2 c2.
           params (postData r)
             = Some [\<lparr>name = ''a'', val = ''1'', fileName = f1, contentType = c1\<rparr>,
                     \<lparr>name = ''a'', val = ''2'', fileName = f2, contentType = c2\<rparr>]
           \<longrightarrow> text (postData r') = Some ''a=2'')"
proof -
  define l' where "l' = l\<lparr>reducer := reducer_spec\<rparr>"
  obtain r' where r': "prepare l' r = Inr r'"
    using prepare_total by blast
  have "mimeType (postData (pre_body l' r)) = ''application/x-www-form-urlencoded''"
    using assms by (simp add: pre_body_inputs)
  then have "normalize_body l' (pre_body l' r) = Inr (body_urlencoded l' (pre_body l' r))"
    by (rule normalize_body_urlencoded)
  then have pd: "postData r' = postData (body_urlencoded l' (pre_body l' r))"
    using prepare_postData [OF r'] by auto
  have none: "text (postData r') = Some [] \<and> paramsObj (postData r') = None"
    if "params (postData r) = None"
    using that by (simp add: pd body_urlencoded_def pre_body_inputs)
  have some: "paramsObj (postData r') = Some (foldl reducer_spec [] (map (\<lambda>p. (name p, val p)) ps))
      \<and> text (postData r') = Some (qs_stringify (foldl reducer_spec [] (map (\<lambda>p. (name p, val p)) ps)))"
    if "params (postData r) = Some ps" for ps
    using that by (simp add: pd body_urlencoded_def pre_body_inputs Let_def l'_def)
  have last_wins: "obj_get (foldl reducer_spec [] (map (\<lambda>p. (name p, val p)) ps)) (name p)
                     = Some (QStr (val p))"
    if "ps = pre @ p # post \<and> (\<forall>p' \<in> set post. name p' \<noteq> name p)"
    for ps pre post :: "param list" and p
    using that by (intro reducer_spec_last) auto
  have keys: "set (obj_keys (foldl reducer_spec [] (map (\<lambda>p. (name p, val p)) ps))) = name ` set ps"
    for ps :: "param list"
    unfolding reducer_spec_keys by (simp add: obj_keys_def)
  have dist: "distinct (obj_keys (foldl reducer_spec [] (map (\<lambda>p. (name p, val p)) ps)))"
    for ps :: "param list"
    by (rule reducer_spec_distinct) (simp add: obj_keys_def)
  have example: "text (postData r') = Some ''a=2''"
    if "params (postData r)
          = Some [\<lparr>name = ''a'', val = ''1'', fileName = f1, contentType = c1\<rparr>,
                  \<lparr>name = ''a'', val = ''2'', fileName = f2, contentType = c2\<rparr>]"
    for f1 c1 f2 c2
    using some [OF that]
    by (simp add: reducer_spec_def qs_stringify_def qs_fields_def encodeURIComponent_def
        percent_encode_char_def unreserved_def)
  have body: "case params (postData r) of
          None \<Rightarrow> text (postData r') = Some [] \<and> paramsObj (postData r') = None
        | Some ps \<Rightarrow>
            (\<exists>po. paramsObj (postData r') = Some po
               \<and> text (postData r') = Some (qs_stringify po)
               \<and> distinct (obj_keys po) \<and> set (obj_keys po) = name ` set ps
               \<and> (\<forall>pre p post.
                     ps = pre @ p # post \<and> (\<forall>p' \<in> set post. name p' \<noteq> name p)
                     \<longrightarrow> obj_get po (name p) = Some (QStr (val p))))"
  proof (cases "params (postData r)")
    case None
    then show ?thesis using none by simp
  next
    case (Some ps)
    show ?thesis
      unfolding Some option.case
      by (rule exI [of _ "foldl reducer_spec [] (map (\<lambda>p. (name p, val p)) ps)"])
        (use some [OF Some] last_wins keys dist in blast)
  qed
  show ?thesis
    unfolding l'_def [symmetric]
    using r' body example by blast
qed

theorem urlencoded_body_witness:
  "\<exists>r'. prepare example_lib
           (example_request\<lparr>postData := (postData example_request)
              \<lparr>mimeType := ''application/x-www-form-urlencoded'', text := Some ''stale'',
               params := Some [\<lparr>name = ''a'', val = ''1'', fileName = None, contentType = None\<rparr>,
                               \<lparr>name = ''a'', val = ''2'', fileName = None, contentType = None\<rparr>]\<rparr>\<rparr>)
           = Inr r'
         \<and> text (postData r') = Some ''a=2''"
proof -
  have l: "example_lib\<lparr>reducer := reducer_spec\<rparr> = example_lib"
    by (simp add: example_lib_def)
  have m: "mimeType (postData (example_request\<lparr>postData := (postData example_request)
              \<lparr>mimeType := ''application/x-www-form-urlencoded'', text := Some ''stale'',
               params := Some [\<lparr>name = ''a'', val = ''1'', fileName = None, contentType = None\<rparr>,
                               \<lparr>name = ''a'', val = ''2'', fileName = None, contentType = None\<rparr>]\<rparr>\<rparr>))
            = ''application/x-www-form-urlencoded''"
    by simp
  show ?thesis
    using urlencoded_body [OF m, of example_lib] unfolding l
    by (auto simp: example_request_def)
qed

section \<open>Registry and dispatch\<close>







section \<open>Ambiguous case-insensitive lookups\<close>

text \<open>
  Claim C10. When two or more distinct keys of a headers object equal the looked-up name
  ignoring case, \<open>getHeader\<close> returns the value stored under the first of them in key
  enumeration order, and \<open>getHeaderName\<close> returns that first key. The object is split at
  its first matching entry \<open>(k, v)\<close>; \<open>k2\<close> is a further matching key. Names are compared
  as the program compares them, by their images under \<open>toLowerCase\<close>.
\<close>

theorem getHeader_first_match:
  assumes "hdrs = pre @ (k, v) # post"
    and "\<forall>k' \<in> fst ` set pre. toLowerCase l k' \<noteq> toLowerCase l nm"
    and "toLowerCase l k = toLowerCase l nm"
    and "k2 \<in> fst ` set post" and "k2 \<noteq> k" and "toLowerCase l k2 = toLowerCase l nm"
  shows "getHeader l hdrs nm = Some v \<and> getHeaderName l hdrs nm = Some k"
proof -
  have keys: "obj_keys hdrs = map fst pre @ k # map fst post"
    using assms(1) by (simp add: obj_keys_def)
  have nomatch: "\<forall>x \<in> set (map fst pre). \<not> (toLowerCase l x = toLowerCase l nm)"
    using assms(2) by simp
  have k_notin: "k \<notin> fst ` set pre"
    using assms(2,3) by blast
  have "k \<noteq> []"
  proof
    assume "k = []"
    then have "toLowerCase l k2 = []" using assms(3,6) by (simp add: toLowerCase_def)
    then have "k2 = []" by (simp only: toLowerCase_Nil_iff)
    then show False using assms(5) \<open>k = []\<close> by simp
  qed
  have f1: "find (\<lambda>x. toLowerCase l x = toLowerCase l nm) (obj_keys hdrs) = Some k"
    unfolding keys using nomatch assms(3) by (rule find_first_match)
  have nomatch2: "\<forall>x \<in> set (map fst pre). \<not> (toLowerCase l x = toLowerCase l nm \<and> x \<noteq> [])"
    using assms(2) by simp
  have f2: "find (\<lambda>x. toLowerCase l x = toLowerCase l nm \<and> x \<noteq> []) (obj_keys hdrs) = Some k"
    unfolding keys using nomatch2 by (rule find_first_match) (simp add: assms(3) \<open>k \<noteq> []\<close>)
  have g: "obj_get hdrs k = Some v"
    unfolding obj_get_def assms(1) using k_notin by (rule map_of_first_match)
  show ?thesis
    by (simp add: getHeader_def getHeaderName_def f1 f2 g)
qed

theorem getHeader_first_match_witness:
  "getHeader example_lib [(''Accept'', ''a''), (''X-Id'', ''1''), (''ACCEPT'', ''b'')] ''accept''
     = Some ''a''
   \<and> getHeaderName example_lib [(''Accept'', ''a''), (''X-Id'', ''1''), (''ACCEPT'', ''b'')] ''accept''
       = Some ''Accept''"
  using getHeader_first_match [of "[(''Accept'', ''a''), (''X-Id'', ''1''), (''ACCEPT'', ''b'')]"
      "[]" "''Accept''" "''a''" "[(''X-Id'', ''1''), (''ACCEPT'', ''b'')]" example_lib "''accept''"
      "''ACCEPT''"]
  by (simp add: toLowerCase_example_lib ascii_lower_def lower_char_def)

end
